theory Spec2Isabelle
  imports Complex_Main "HOL-Library.AList" "HOL-Library.Char_ord" "HOL-Library.List_Lexorder"
begin

section \<open>Data model\<close>

text \<open>
  The scripts work on Python floats (IEEE 754 doubles). Where a claim is about the value
  a formula denotes or about ranges and counts, a float that is a finite number is
  modelled by the real it denotes, with exact real arithmetic. Where a claim compares
  two computed scores, the rounding of every operation matters, and the score is
  modelled in double precision (section \<open>Risk score in double precision\<close>). A float
  computation that may leave the finite numbers (\<open>nan\<close>, \<open>inf\<close>, \<open>-inf\<close>) has the type
  \<open>npfloat\<close>: \<open>Some x\<close> is the finite number \<open>x\<close>, \<open>None\<close> is a result that is not a
  finite number. Multiplying a non-finite float by a positive constant and adding finite
  floats to it leaves it non-finite, so \<open>None\<close> propagates through the arithmetic below.
\<close>

type_synonym npfloat = "real option"

text \<open>One row of the variants table: the dictionary built in
  \<open>generate_covid_risk_variants\<close>, key by key.\<close>

record variant =
  rs_id :: string
  chromosome :: string
  position :: int
  chromosomal_location :: string
  functional_consequence :: string
  host_gene :: string
  p_value :: real
  allele_frequency :: real
  odds_ratio :: real
  related_disease :: string
  study_population :: string
  sample_size :: int

section \<open>Column reductions of pandas and numpy\<close>

text \<open>\<open>Series.min()\<close>: the least entry; \<open>nan\<close> on an empty series.\<close>

definition series_min :: "real list \<Rightarrow> npfloat" where
  "series_min xs = (case xs of [] \<Rightarrow> None | x # rest \<Rightarrow> Some (fold min rest x))"

text \<open>\<open>Series.mean()\<close>: the sum over the count; \<open>nan\<close> on an empty series.\<close>

definition series_mean :: "real list \<Rightarrow> npfloat" where
  "series_mean xs = (if xs = [] then None else Some (sum_list xs / real (length xs)))"

text \<open>\<open>np.log10\<close>: \<open>-inf\<close> at zero and \<open>nan\<close> below it (warnings are filtered), the
  decimal logarithm above it.\<close>

definition np_log10 :: "real \<Rightarrow> npfloat" where
  "np_log10 x = (if 0 < x then Some (log 10 x) else None)"

section \<open>Risk score (test 6 of the tutorial script)\<close>

text \<open>
  \<^verbatim>\<open>
  def calculate_risk_score(gene_data):
      p_score = -np.log10(gene_data['p_value'].min())
      or_score = gene_data['odds_ratio'].mean()
      variant_score = len(gene_data)
      risk_score = (p_score * 0.4) + (or_score * 0.4) + (variant_score * 0.2)
      return risk_score
  \<close>
\<close>

definition calculate_risk_score :: "variant list \<Rightarrow> npfloat" where
  "calculate_risk_score gene_data =
     (case series_min (map p_value gene_data) of
        None \<Rightarrow> None
      | Some m \<Rightarrow>
          (case np_log10 m of
             None \<Rightarrow> None
           | Some l \<Rightarrow>
               (case series_mean (map odds_ratio gene_data) of
                  None \<Rightarrow> None
                | Some or_score \<Rightarrow>
                    (let p_score = - l;
                         variant_score = real (length gene_data)
                     in Some ((p_score * 0.4) + (or_score * 0.4) + (variant_score * 0.2))))))"

text \<open>\<open>Series.unique()\<close>: the distinct values in order of first appearance.\<close>

fun unique_acc :: "'a list \<Rightarrow> 'a list \<Rightarrow> 'a list" where
  "unique_acc seen [] = rev seen"
| "unique_acc seen (x # xs) = (if x \<in> set seen then unique_acc seen xs else unique_acc (x # seen) xs)"

definition unique :: "'a list \<Rightarrow> 'a list" where
  "unique xs = unique_acc [] xs"

text \<open>
  \<^verbatim>\<open>
  gene_risk_scores = {}
  for gene in df['host_gene'].unique():
      gene_data = df[df['host_gene'] == gene]
      risk_score = calculate_risk_score(gene_data)
      gene_risk_scores[gene] = risk_score
  \<close>
  The dictionary is an association list in insertion order; the keys are distinct, so
  every assignment appends.
\<close>

definition select_gene :: "variant list \<Rightarrow> string \<Rightarrow> variant list" where
  "select_gene df gene = filter (\<lambda>r. host_gene r = gene) df"

definition gene_risk_scores :: "variant list \<Rightarrow> (string \<times> npfloat) list" where
  "gene_risk_scores df =
     map (\<lambda>gene. (gene, calculate_risk_score (select_gene df gene))) (unique (map host_gene df))"


section \<open>Risk score in double precision\<close>

text \<open>
  Rounding to nearest, ties to even: \<open>rne\<close> rounds a real to an integer, and
  \<open>round_to_bits t\<close> rounds a real to \<open>t + 1\<close> significant bits, scaling by the power
  of two of its binade. \<open>binary64\<close> is the rounding of IEEE 754 double precision (52
  fraction bits); the exponent is unbounded here (no overflow, no subnormal numbers),
  which the scores and their inputs, all of moderate size, never meet. Every basic
  operation on doubles is the exact operation followed by this rounding, and a decimal
  literal such as \<open>0.4\<close> denotes the double nearest to it.
\<close>

definition rne :: "real \<Rightarrow> int" where
  "rne y = (let f = \<lfloor>y\<rfloor>; d = y - of_int f
            in if d < 1 / 2 then f else if 1 / 2 < d then f + 1 else if even f then f else f + 1)"

definition round_to_bits :: "nat \<Rightarrow> real \<Rightarrow> real" where
  "round_to_bits t x =
     (if x = 0 then 0
      else (let q = 2 powr (of_int \<lfloor>log 2 \<bar>x\<bar>\<rfloor> - real t) in of_int (rne (x / q)) * q))"

definition binary64 :: "real \<Rightarrow> real" where
  "binary64 x = round_to_bits 52 x"

text \<open>
  \<open>calculate_risk_score\<close> again, with the rounding of each operation of
  \<^verbatim>\<open>(p_score * 0.4) + (or_score * 0.4) + (variant_score * 0.2)\<close>
  written out. \<open>Series.min()\<close> returns one of the entries and needs no rounding, and so
  do the negation and the conversion of the length to a float. What \<open>np.log10\<close> and
  \<open>Series.mean()\<close> return on doubles is the libraries' business: they are parameters.
\<close>

definition calculate_risk_score_double ::
  "(real \<Rightarrow> real) \<Rightarrow> (real list \<Rightarrow> npfloat) \<Rightarrow> variant list \<Rightarrow> npfloat" where
  "calculate_risk_score_double log10_double mean_double gene_data =
     (case series_min (map p_value gene_data) of
        None \<Rightarrow> None
      | Some m \<Rightarrow>
          (if 0 < m
           then (case mean_double (map odds_ratio gene_data) of
                   None \<Rightarrow> None
                 | Some or_score \<Rightarrow>
                     (let p_score = - log10_double m;
                          variant_score = real (length gene_data)
                      in Some (binary64
                                (binary64 (binary64 (p_score * binary64 0.4)
                                           + binary64 (or_score * binary64 0.4))
                                 + binary64 (variant_score * binary64 0.2)))))
           else None))"

section \<open>Gene-level summary (\<open>groupby('host_gene').agg\<close>)\<close>



text \<open>\<open>groupby\<close> sorts the group keys (its default) and keeps the rows of a group in
  table order.\<close>

definition groupby_host_gene :: "variant list \<Rightarrow> (string \<times> variant list) list" where
  "groupby_host_gene df =
     map (\<lambda>gene. (gene, select_gene df gene)) (sort (unique (map host_gene df)))"




section \<open>Pathway enrichment (test 3 of the tutorial script)\<close>

datatype py_error = ZeroDivisionError | ValueError | LibraryError string

text \<open>Python's \<open>/\<close> on numbers.\<close>

definition py_truediv :: "real \<Rightarrow> real \<Rightarrow> py_error + real" where
  "py_truediv a b = (if b = 0 then Inl ZeroDivisionError else Inr (a / b))"

definition pathway_categories :: "(string \<times> string list) list" where
  "pathway_categories =
     [(''Immune Response'',
         [''IFNAR2'', ''TYK2'', ''OAS1'', ''OAS2'', ''OAS3'', ''IFIH1'', ''IRF7'', ''IRF3'',
          ''STAT1'', ''STAT2'']),
      (''Inflammatory Response'',
         [''IL6'', ''IL1B'', ''TNF'', ''CCL2'', ''CXCL10'', ''IFNG'', ''IL10'', ''IL4'', ''IL13'']),
      (''Viral Entry'', [''ACE2'', ''TMPRSS2'']),
      (''Innate Immunity'', [''CD14'', ''TLR3'', ''TLR7''])]"

record PathwayEnrichment =
  overlap :: nat
  total :: nat
  enrichment_score :: real

text \<open>
  The body of the loop:
  \<^verbatim>\<open>
  overlap = len(set(genes) & set(unique_genes))
  total_pathway_genes = len(genes)
  enrichment_score = overlap / total_pathway_genes if total_pathway_genes > 0 else 0
  \<close>
\<close>

definition pathway_entry :: "string list \<Rightarrow> string list \<Rightarrow> py_error + PathwayEnrichment" where
  "pathway_entry genes unique_genes =
     (let n_overlap = card (set genes \<inter> set unique_genes);
          total_pathway_genes = length genes
      in case (if total_pathway_genes > 0
               then py_truediv (real n_overlap) (real total_pathway_genes)
               else Inr 0) of
           Inl e \<Rightarrow> Inl e
         | Inr score \<Rightarrow>
             Inr \<lparr> overlap = n_overlap, total = total_pathway_genes,
                   enrichment_score = score \<rparr>)"

text \<open>
  \<^verbatim>\<open>
  pathway_enrichment = {}
  for pathway, genes in pathway_categories.items():
      ...
      pathway_enrichment[pathway] = {...}
  \<close>
  Both dictionaries are association lists in insertion order; an assignment replaces
  the entry of a key that is present and appends otherwise.
\<close>

fun pathway_loop ::
  "(string \<times> string list) list \<Rightarrow> string list \<Rightarrow> (string \<times> PathwayEnrichment) list
   \<Rightarrow> py_error + (string \<times> PathwayEnrichment) list" where
  "pathway_loop [] unique_genes acc = Inr acc"
| "pathway_loop ((pathway, genes) # rest) unique_genes acc =
     (case pathway_entry genes unique_genes of
        Inl e \<Rightarrow> Inl e
      | Inr entry \<Rightarrow> pathway_loop rest unique_genes (AList.update pathway entry acc))"

definition pathway_enrichment ::
  "(string \<times> string list) list \<Rightarrow> variant list \<Rightarrow> py_error + (string \<times> PathwayEnrichment) list" where
  "pathway_enrichment categories df =
     (let unique_genes = unique (map host_gene df) in pathway_loop categories unique_genes [])"

section \<open>Pseudo-random sources\<close>

text \<open>
  The scripts draw from two process-wide generators: numpy's (\<open>np.random\<close>) and the
  standard library's (\<open>random\<close>). Neither is part of the repository, so each is a
  parameter: a state type and the functions the scripts call on it, every call
  returning the value drawn and the advanced state.
\<close>

record 'n np_random =
  random_sample :: "'n \<Rightarrow> real \<times> 'n"
  np_seed :: "nat \<Rightarrow> 'n"

record 'p py_random =
  randint :: "int \<Rightarrow> int \<Rightarrow> 'p \<Rightarrow> int \<times> 'p"
  choice :: "string list \<Rightarrow> 'p \<Rightarrow> string \<times> 'p"
  py_seed :: "nat \<Rightarrow> 'p"

text \<open>\<open>np.random.random()\<close> draws from the half-open interval from 0 to 1: this is
  what the scripts rely on from numpy's generator.\<close>

definition unit_interval :: "'n np_random \<Rightarrow> bool" where
  "unit_interval np \<longleftrightarrow> (\<forall>s. 0 \<le> fst (random_sample np s) \<and> fst (random_sample np s) < 1)"

text \<open>\<open>np.random.uniform(low, high)\<close> is \<open>low + (high - low) * random_sample()\<close>.\<close>

definition uniform :: "'n np_random \<Rightarrow> real \<Rightarrow> real \<Rightarrow> 'n \<Rightarrow> real \<times> 'n" where
  "uniform np low high s = (let (u, s') = random_sample np s in (low + (high - low) * u, s'))"

text \<open>The state of the process a script runs in: the two generators, and everything
  else the process could read (the clock, the environment, the operating system's
  entropy), which differs from run to run.\<close>

record ('n, 'p, 'w) rng_state =
  np_state :: 'n
  py_state :: 'p
  environ :: 'w

section \<open>Interaction graph (tests 4 and 5 of the tutorial script)\<close>

text \<open>
  \<open>networkx.Graph\<close>: an undirected graph without parallel edges. The nodes are kept in
  insertion order, every edge once with its weight. \<open>add_node\<close> leaves a node that is
  present alone; \<open>add_edge(u, v, weight=w)\<close> adds the end points that are missing and
  then either sets the weight of the edge between \<open>u\<close> and \<open>v\<close> (in either
  orientation) or adds the edge. An edge from a node to itself is allowed and counts
  once in \<open>number_of_edges\<close>.
\<close>

record Graph =
  nodes :: "string list"
  edges :: "((string \<times> string) \<times> real) list"

definition empty_graph :: Graph where
  "empty_graph = \<lparr> nodes = [], edges = [] \<rparr>"

definition add_node :: "Graph \<Rightarrow> string \<Rightarrow> Graph" where
  "add_node G n = (if n \<in> set (nodes G) then G else G\<lparr> nodes := nodes G @ [n] \<rparr>)"

definition same_edge :: "string \<times> string \<Rightarrow> string \<times> string \<Rightarrow> bool" where
  "same_edge e f \<longleftrightarrow> e = f \<or> e = (snd f, fst f)"

fun set_edge ::
  "string \<times> string \<Rightarrow> real \<Rightarrow> ((string \<times> string) \<times> real) list \<Rightarrow> ((string \<times> string) \<times> real) list" where
  "set_edge e w [] = [(e, w)]"
| "set_edge e w ((f, x) # es) = (if same_edge f e then (f, w) # es else (f, x) # set_edge e w es)"

definition add_edge :: "Graph \<Rightarrow> string \<Rightarrow> string \<Rightarrow> real \<Rightarrow> Graph" where
  "add_edge G u v w =
     (let G' = add_node (add_node G u) v in G'\<lparr> edges := set_edge (u, v) w (edges G') \<rparr>)"

definition number_of_nodes :: "Graph \<Rightarrow> nat" where
  "number_of_nodes G = length (nodes G)"

definition number_of_edges :: "Graph \<Rightarrow> nat" where
  "number_of_edges G = length (edges G)"

text \<open>
  \<^verbatim>\<open>
  def create_test_network(genes, interaction_probability=0.3):
      G = nx.Graph()
      for gene in genes:
          G.add_node(gene)
      for i, gene1 in enumerate(genes):
          for j, gene2 in enumerate(genes[i+1:], i+1):
              if np.random.random() < interaction_probability:
                  confidence = np.random.uniform(0.4, 0.95)
                  G.add_edge(gene1, gene2, weight=confidence)
      return G
  \<close>
  The inner loop runs over the genes after position \<open>i\<close>, that is over the rest of the
  list when \<open>gene1\<close> is its head.
\<close>

fun inner_loop ::
  "'n np_random \<Rightarrow> real \<Rightarrow> string \<Rightarrow> string list \<Rightarrow> Graph \<times> 'n \<Rightarrow> Graph \<times> 'n" where
  "inner_loop np interaction_probability gene1 [] (G, s) = (G, s)"
| "inner_loop np interaction_probability gene1 (gene2 # rest) (G, s) =
     (let (r, s1) = random_sample np s
      in if r < interaction_probability
         then (let (confidence, s2) = uniform np 0.4 0.95 s1
               in inner_loop np interaction_probability gene1 rest
                    (add_edge G gene1 gene2 confidence, s2))
         else inner_loop np interaction_probability gene1 rest (G, s1))"

fun outer_loop ::
  "'n np_random \<Rightarrow> real \<Rightarrow> string list \<Rightarrow> Graph \<times> 'n \<Rightarrow> Graph \<times> 'n" where
  "outer_loop np interaction_probability [] Gs = Gs"
| "outer_loop np interaction_probability (gene1 # rest) Gs =
     outer_loop np interaction_probability rest
       (inner_loop np interaction_probability gene1 rest Gs)"

definition create_test_network ::
  "'n np_random \<Rightarrow> string list \<Rightarrow> real \<Rightarrow> 'n \<Rightarrow> Graph \<times> 'n" where
  "create_test_network np genes interaction_probability s =
     outer_loop np interaction_probability genes
       (fold (\<lambda>gene G. add_node G gene) genes empty_graph, s)"

text \<open>The pairs the two loops visit, in the order they visit them, and what the loop
  body does at one pair.\<close>

fun loop_pairs :: "'a list \<Rightarrow> ('a \<times> 'a) list" where
  "loop_pairs [] = []"
| "loop_pairs (gene1 # rest) = map (Pair gene1) rest @ loop_pairs rest"

definition loop_body ::
  "'n np_random \<Rightarrow> real \<Rightarrow> string \<times> string \<Rightarrow> Graph \<times> 'n \<Rightarrow> Graph \<times> 'n" where
  "loop_body np interaction_probability pair Gs =
     (let (r, s1) = random_sample np (snd Gs)
      in if r < interaction_probability
         then (let (confidence, s2) = uniform np 0.4 0.95 s1
               in (add_edge (fst Gs) (fst pair) (snd pair) confidence, s2))
         else (fst Gs, s1))"

text \<open>The unordered pair behind a pair of genes: an undirected edge is its two ends.\<close>

definition ends :: "'a \<times> 'a \<Rightarrow> 'a set" where
  "ends e = {fst e, snd e}"

definition self_loops :: "Graph \<Rightarrow> ((string \<times> string) \<times> real) list" where
  "self_loops G = filter (\<lambda>(e, w). fst e = snd e) (edges G)"

text \<open>
  \<^verbatim>\<open>
  if ppi_network.number_of_edges() > 0:
      degree_centrality = nx.degree_centrality(ppi_network)
      betweenness_centrality = nx.betweenness_centrality(ppi_network)
      top_hub = max(degree_centrality, key=degree_centrality.get)
  else:
      print("... Network metrics skipped (no edges in network)")
  \<close>
  The two centrality functions are networkx's; they are parameters here, each
  returning a dictionary from node to value or raising. \<open>max\<close> with a key returns the
  first key of the largest value, and raises \<open>ValueError\<close> on an empty dictionary.
\<close>

type_synonym centrality = "Graph \<Rightarrow> py_error + (string \<times> real) list"

fun max_from :: "string \<times> real \<Rightarrow> (string \<times> real) list \<Rightarrow> string \<times> real" where
  "max_from best [] = best"
| "max_from best (kv # rest) = (if snd best < snd kv then max_from kv rest else max_from best rest)"

definition py_max_key :: "(string \<times> real) list \<Rightarrow> py_error + string" where
  "py_max_key d = (case d of [] \<Rightarrow> Inl ValueError | kv # rest \<Rightarrow> Inr (fst (max_from kv rest)))"

datatype metrics_report =
  Calculated "(string \<times> real) list" "(string \<times> real) list" string
| Skipped

definition calculate_metrics :: "centrality \<Rightarrow> centrality \<Rightarrow> Graph \<Rightarrow> py_error + metrics_report" where
  "calculate_metrics nx_degree_centrality nx_betweenness_centrality G =
     (case nx_degree_centrality G of
        Inl e \<Rightarrow> Inl e
      | Inr degree_centrality \<Rightarrow>
          (case nx_betweenness_centrality G of
             Inl e \<Rightarrow> Inl e
           | Inr betweenness_centrality \<Rightarrow>
               (case py_max_key degree_centrality of
                  Inl e \<Rightarrow> Inl e
                | Inr top_hub \<Rightarrow>
                    Inr (Calculated degree_centrality betweenness_centrality top_hub))))"

definition network_metrics :: "centrality \<Rightarrow> centrality \<Rightarrow> Graph \<Rightarrow> py_error + metrics_report" where
  "network_metrics nx_degree_centrality nx_betweenness_centrality ppi_network =
     (if number_of_edges ppi_network > 0
      then calculate_metrics nx_degree_centrality nx_betweenness_centrality ppi_network
      else Inr Skipped)"

section \<open>Dataset generator (\<open>create_synthetic_dataset.py\<close>)\<close>

text \<open>Python's \<open>str\<close> of an integer, as the f-strings format it.\<close>

fun str_nat :: "nat \<Rightarrow> string" where
  "str_nat n =
     (if n < 10 then [''0123456789'' ! n]
      else str_nat (n div 10) @ [''0123456789'' ! (n mod 10)])"

declare str_nat.simps [simp del]

definition str_int :: "int \<Rightarrow> string" where
  "str_int i = (if i < 0 then CHR ''-'' # str_nat (nat (- i)) else str_nat (nat i))"

definition chromosomes :: "string list" where
  "chromosomes = map (\<lambda>i. ''chr'' @ str_int i) [1..22] @ [''chrX'', ''chrY'']"

definition functional_consequences :: "string list" where
  "functional_consequences =
     [''missense_variant'', ''synonymous_variant'', ''intron_variant'',
      ''upstream_gene_variant'', ''downstream_gene_variant'', ''3_prime_UTR_variant'',
      ''5_prime_UTR_variant'', ''splice_region_variant'', ''regulatory_region_variant'']"

definition covid_genes :: "string list" where
  "covid_genes =
     [''ACE2'', ''TMPRSS2'', ''IFNAR2'', ''TYK2'', ''OAS1'', ''OAS2'', ''OAS3'', ''IFIH1'',
      ''IRF7'', ''IRF3'', ''STAT1'', ''STAT2'', ''IL6'', ''IL1B'', ''TNF'', ''CCL2'',
      ''CXCL10'', ''IFNG'', ''IL10'', ''IL4'', ''IL13'', ''CD14'', ''TLR3'', ''TLR7'',
      ''TLR8'', ''MYD88'', ''IRAK4'', ''IRF8'', ''NLRP3'', ''CASP1'', ''IL18'',
      ''HMGB1'', ''S100A8'', ''S100A9'', ''LCN2'', ''RETN'', ''ADIPOQ'', ''LEP'',
      ''CRP'', ''SAA1'', ''APOE'', ''LDLR'', ''PCSK9'', ''ANGPT2'', ''VWF'',
      ''F8'', ''SERPINE1'', ''PLAT'', ''PLG'', ''FGB'', ''FGA'', ''FGG'',
      ''PROC'', ''PROS1'', ''THBD'', ''EPCR'', ''TFPI'', ''AT3'', ''PC'']"

definition related_diseases :: "string list" where
  "related_diseases =
     [''Severe COVID-19'', ''Respiratory failure'', ''ARDS'', ''Pneumonia'',
      ''Thrombosis'', ''Cardiovascular disease'', ''Diabetes'', ''Hypertension'',
      ''Immune deficiency'', ''Inflammatory response'', ''Cytokine storm'',
      ''Sepsis'', ''Multi-organ failure'', ''Coagulopathy'']"

text \<open>
  The body of the loop of \<open>generate_covid_risk_variants\<close>. The draws are threaded in
  program order; the two generators advance independently. The last two draws stand in
  the dictionary literal, after the three draws of numpy.
\<close>

definition generate_row ::
  "'n np_random \<Rightarrow> 'p py_random \<Rightarrow> ('n, 'p, 'w) rng_state \<Rightarrow> variant \<times> ('n, 'p, 'w) rng_state" where
  "generate_row np py g =
     (let (rs_num, p1) = randint py 1000000 99999999 (py_state g);
          rs_id' = ''rs'' @ str_int rs_num;
          (chromosome', p2) = choice py chromosomes p1;
          (position', p3) = randint py 1000000 200000000 p2;
          location = chromosome' @ '':'' @ str_int position';
          (consequence, p4) = choice py functional_consequences p3;
          (host_gene', p5) = choice py covid_genes p4;
          (p_value', n1) = uniform np 0.00000001 0.00005 (np_state g);
          (disease, p6) = choice py related_diseases p5;
          (allele_freq, n2) = uniform np 0.01 0.5 n1;
          (odds_ratio', n3) = uniform np 1.1 3.5 n2;
          (population, p7) = choice py [''European'', ''East Asian'', ''Mixed'', ''Middle Eastern''] p6;
          (size, p8) = randint py 500 50000 p7
      in (\<lparr> rs_id = rs_id',
            chromosome = chromosome',
            position = position',
            chromosomal_location = location,
            functional_consequence = consequence,
            host_gene = host_gene',
            p_value = p_value',
            allele_frequency = allele_freq,
            odds_ratio = odds_ratio',
            related_disease = disease,
            study_population = population,
            sample_size = size \<rparr>,
          g\<lparr> np_state := n3, py_state := p8 \<rparr>))"

text \<open>\<open>for i in range(n_variants): ... data.append({...})\<close>\<close>

fun generate_loop ::
  "'n np_random \<Rightarrow> 'p py_random \<Rightarrow> nat \<Rightarrow> variant list \<Rightarrow> ('n, 'p, 'w) rng_state
   \<Rightarrow> variant list \<times> ('n, 'p, 'w) rng_state" where
  "generate_loop np py 0 data g = (data, g)"
| "generate_loop np py (Suc k) data g =
     (let (row, g') = generate_row np py g in generate_loop np py k (data @ [row]) g')"

text \<open>\<open>pd.DataFrame(data)\<close> on a list of dictionaries: the columns are the keys of the
  dictionaries in order of appearance, so a table built from no dictionary has no
  column.\<close>

record DataFrame =
  columns :: "string list"
  rows :: "variant list"

definition variant_keys :: "string list" where
  "variant_keys =
     [''rs_id'', ''chromosome'', ''position'', ''chromosomal_location'',
      ''functional_consequence'', ''host_gene'', ''p_value'', ''allele_frequency'',
      ''odds_ratio'', ''related_disease'', ''study_population'', ''sample_size'']"

definition pd_DataFrame :: "variant list \<Rightarrow> DataFrame" where
  "pd_DataFrame data = \<lparr> columns = (if data = [] then [] else variant_keys), rows = data \<rparr>"

definition generate_covid_risk_variants ::
  "'n np_random \<Rightarrow> 'p py_random \<Rightarrow> nat \<Rightarrow> ('n, 'p, 'w) rng_state \<Rightarrow> DataFrame \<times> ('n, 'p, 'w) rng_state" where
  "generate_covid_risk_variants np py n_variants g =
     (let (data, g') = generate_loop np py n_variants [] g in (pd_DataFrame data, g'))"


section \<open>The inline table of \<open>test_tutorial.py\<close>\<close>

text \<open>
  The tutorial script builds its table from a dictionary of columns, every column drawn
  from numpy's generator:
  \<^verbatim>\<open>
  data = {
      'rs_id': [f'rs{np.random.randint(1000000, 99999999)}' for _ in range(n_variants)],
      'chromosome': [f'chr{np.random.randint(1, 23)}' for _ in range(n_variants)],
      'position': np.random.randint(1000000, 200000000, n_variants),
      'host_gene': np.random.choice(covid_genes, n_variants),
      'p_value': np.random.uniform(1e-8, 5e-5, n_variants),
      'odds_ratio': np.random.uniform(1.1, 3.5, n_variants),
      'allele_frequency': np.random.uniform(0.01, 0.5, n_variants),
      'functional_consequence': np.random.choice([...], n_variants),
      'related_disease': np.random.choice([...], n_variants),
      'study_population': np.random.choice(['European', 'East Asian', 'Mixed'], n_variants)
  }
  df = pd.DataFrame(data)
  \<close>
  \<open>np.random.randint\<close> and \<open>np.random.choice\<close> are parameters, like the other
  primitives. A draw of size \<open>n\<close> is \<open>n\<close> draws in a row.
\<close>

record 'n np_discrete =
  np_randint :: "int \<Rightarrow> int \<Rightarrow> 'n \<Rightarrow> int \<times> 'n"
  np_choice :: "string list \<Rightarrow> 'n \<Rightarrow> string \<times> 'n"

fun draw_n :: "('n \<Rightarrow> 'a \<times> 'n) \<Rightarrow> nat \<Rightarrow> 'n \<Rightarrow> 'a list \<times> 'n" where
  "draw_n draw 0 s = ([], s)"
| "draw_n draw (Suc k) s =
     (let (x, s1) = draw s; (xs, s2) = draw_n draw k s1 in (x # xs, s2))"

definition covid_genes_tutorial :: "string list" where
  "covid_genes_tutorial =
     [''ACE2'', ''TMPRSS2'', ''IFNAR2'', ''TYK2'', ''OAS1'', ''OAS2'', ''OAS3'', ''IFIH1'',
      ''IRF7'', ''IRF3'', ''STAT1'', ''STAT2'', ''IL6'', ''IL1B'', ''TNF'', ''CCL2'',
      ''CXCL10'', ''IFNG'', ''IL10'', ''IL4'', ''IL13'', ''CD14'', ''TLR3'', ''TLR7'']"

text \<open>The dictionary \<open>data\<close>: one list per key.\<close>

record tutorial_data =
  data_rs_id :: "string list"
  data_chromosome :: "string list"
  data_position :: "int list"
  data_host_gene :: "string list"
  data_p_value :: "real list"
  data_odds_ratio :: "real list"
  data_allele_frequency :: "real list"
  data_functional_consequence :: "string list"
  data_related_disease :: "string list"
  data_study_population :: "string list"

definition tutorial_keys :: "string list" where
  "tutorial_keys =
     [''rs_id'', ''chromosome'', ''position'', ''host_gene'', ''p_value'', ''odds_ratio'',
      ''allele_frequency'', ''functional_consequence'', ''related_disease'',
      ''study_population'']"

definition generate_data ::
  "'n np_random \<Rightarrow> 'n np_discrete \<Rightarrow> nat \<Rightarrow> 'n \<Rightarrow> tutorial_data \<times> 'n" where
  "generate_data np nd n_variants s =
     (let (c_rs_id, s1) =
            draw_n (\<lambda>s. let (i, s') = np_randint nd 1000000 99999999 s in (''rs'' @ str_int i, s'))
              n_variants s;
          (c_chromosome, s2) =
            draw_n (\<lambda>s. let (i, s') = np_randint nd 1 23 s in (''chr'' @ str_int i, s'))
              n_variants s1;
          (c_position, s3) = draw_n (np_randint nd 1000000 200000000) n_variants s2;
          (c_host_gene, s4) = draw_n (np_choice nd covid_genes_tutorial) n_variants s3;
          (c_p_value, s5) = draw_n (uniform np 0.00000001 0.00005) n_variants s4;
          (c_odds_ratio, s6) = draw_n (uniform np 1.1 3.5) n_variants s5;
          (c_allele_frequency, s7) = draw_n (uniform np 0.01 0.5) n_variants s6;
          (c_functional_consequence, s8) =
            draw_n (np_choice nd
                [''missense_variant'', ''synonymous_variant'', ''intron_variant'',
                 ''upstream_gene_variant'', ''downstream_gene_variant'', ''3_prime_UTR_variant''])
              n_variants s7;
          (c_related_disease, s9) =
            draw_n (np_choice nd
                [''Severe COVID-19'', ''Respiratory failure'', ''ARDS'', ''Pneumonia'',
                 ''Thrombosis'', ''Cardiovascular disease'', ''Immune deficiency''])
              n_variants s8;
          (c_study_population, s10) =
            draw_n (np_choice nd [''European'', ''East Asian'', ''Mixed'']) n_variants s9
      in (\<lparr> data_rs_id = c_rs_id,
            data_chromosome = c_chromosome,
            data_position = c_position,
            data_host_gene = c_host_gene,
            data_p_value = c_p_value,
            data_odds_ratio = c_odds_ratio,
            data_allele_frequency = c_allele_frequency,
            data_functional_consequence = c_functional_consequence,
            data_related_disease = c_related_disease,
            data_study_population = c_study_population \<rparr>,
          s10))"

text \<open>\<open>pd.DataFrame(data)\<close> on a dictionary of columns: the columns are the keys, the
  number of rows is the common length of the columns, and columns of different lengths
  raise \<open>ValueError\<close>.\<close>

record ColumnFrame =
  frame_columns :: "string list"
  frame_length :: nat
  frame_data :: tutorial_data

definition column_lengths :: "tutorial_data \<Rightarrow> nat list" where
  "column_lengths d =
     [length (data_rs_id d), length (data_chromosome d), length (data_position d),
      length (data_host_gene d), length (data_p_value d), length (data_odds_ratio d),
      length (data_allele_frequency d), length (data_functional_consequence d),
      length (data_related_disease d), length (data_study_population d)]"

definition pd_DataFrame_dict :: "tutorial_data \<Rightarrow> py_error + ColumnFrame" where
  "pd_DataFrame_dict d =
     (if list_all (\<lambda>l. l = length (data_rs_id d)) (column_lengths d)
      then Inr \<lparr> frame_columns = tutorial_keys, frame_length = length (data_rs_id d),
                 frame_data = d \<rparr>
      else Inl ValueError)"

definition tutorial_df ::
  "'n np_random \<Rightarrow> 'n np_discrete \<Rightarrow> nat \<Rightarrow> 'n \<Rightarrow> py_error + ColumnFrame \<times> 'n" where
  "tutorial_df np nd n_variants s =
     (let (d, s') = generate_data np nd n_variants s
      in case pd_DataFrame_dict d of Inl e \<Rightarrow> Inl e | Inr df \<Rightarrow> Inr (df, s'))"

section \<open>The columns the specification declares\<close>

text \<open>
  The fields the specification lists for a variant record (its data model), to compare
  the tables' columns with: ten fields for every variant record, and \<open>sample_size\<close>
  for the generator of \<open>create_synthetic_dataset.py\<close> only.
\<close>

definition spec_declared_columns :: "string list" where
  "spec_declared_columns =
     [''rs_id'', ''chromosome'', ''position'', ''functional_consequence'', ''host_gene'',
      ''p_value'', ''allele_frequency'', ''odds_ratio'', ''related_disease'',
      ''study_population'']"

definition spec_declared_generator_columns :: "string list" where
  "spec_declared_generator_columns = spec_declared_columns @ [''sample_size'']"

section \<open>Fixtures\<close>

text \<open>Concrete generators and tables, on which the theorems below are run.\<close>

definition np_const :: "real \<Rightarrow> nat np_random" where
  "np_const u = \<lparr> random_sample = (\<lambda>s. (u, Suc s)), np_seed = (\<lambda>n. n) \<rparr>"

text \<open>A generator whose draws depend on its state: it cycles through 0, 1/4, 1/2
  and 3/4.\<close>

definition np_cycle :: "nat np_random" where
  "np_cycle = \<lparr> random_sample = (\<lambda>s. (real (s mod 4) / 4, Suc s)), np_seed = (\<lambda>n. n) \<rparr>"

definition py_first :: "nat py_random" where
  "py_first =
     \<lparr> randint = (\<lambda>a b s. (a, Suc s)),
       choice = (\<lambda>xs s. (case xs of [] \<Rightarrow> [] | x # _ \<Rightarrow> x, Suc s)),
       py_seed = (\<lambda>n. n) \<rparr>"

definition nd_first :: "nat np_discrete" where
  "nd_first =
     \<lparr> np_randint = (\<lambda>a b s. (a, Suc s)),
       np_choice = (\<lambda>xs s. (case xs of [] \<Rightarrow> [] | x # _ \<Rightarrow> x, Suc s)) \<rparr>"

text \<open>A decimal logarithm on doubles that is rounded correctly, and a mean on doubles that
  sums from left to right.\<close>

definition log10_nearest :: "real \<Rightarrow> real" where
  "log10_nearest x = binary64 (log 10 x)"

definition mean_sequential :: "real list \<Rightarrow> npfloat" where
  "mean_sequential xs =
     (if xs = [] then None
      else Some (binary64 (foldl (\<lambda>a x. binary64 (a + x)) 0 xs / real (length xs))))"

definition row_of :: "string \<Rightarrow> real \<Rightarrow> real \<Rightarrow> string \<Rightarrow> variant" where
  "row_of gene p odds disease =
     \<lparr> rs_id = ''rs1000000'', chromosome = ''chr1'', position = 1000000,
       chromosomal_location = ''chr1:1000000'', functional_consequence = ''missense_variant'',
       host_gene = gene, p_value = p, allele_frequency = 0.1, odds_ratio = odds,
       related_disease = disease, study_population = ''European'', sample_size = 500 \<rparr>"

definition three_records :: "variant list" where
  "three_records =
     [row_of ''TYK2'' 0.00001 2 ''ARDS'',
      row_of ''ACE2'' 0.000001 3 ''Pneumonia'',
      row_of ''TYK2'' 0.0000001 1.5 ''Sepsis'']"

section \<open>Properties\<close>

lemma fold_min_Min: "fold min xs (x::real) = Min (insert x (set xs))"
proof (induction xs arbitrary: x)
  case Nil
  show ?case by simp
next
  case (Cons y ys)
  have "fold min (y # ys) x = Min (insert (min y x) (set ys))"
    using Cons.IH by simp
  also have "\<dots> = Min (insert x (insert y (set ys)))"
    by (cases "set ys = {}") (simp_all add: min.commute min.left_commute)
  finally show ?case by simp
qed

lemma series_min_Min: "xs \<noteq> [] \<Longrightarrow> series_min xs = Some (Min (set xs))"
  by (cases xs) (simp_all add: series_min_def fold_min_Min)

lemma set_unique_acc: "set (unique_acc seen xs) = set seen \<union> set xs"
  by (induction seen xs rule: unique_acc.induct) auto


lemma set_unique: "set (unique xs) = set xs"
  by (simp add: unique_def set_unique_acc)


subsection \<open>Risk score\<close>

lemma risk_score_value:
  assumes ne: "gene_data \<noteq> []" and pos: "\<forall>r\<in>set gene_data. 0 < p_value r"
  shows "calculate_risk_score gene_data =
     Some (0.4 * (- log 10 (Min (set (map p_value gene_data))))
         + 0.4 * (sum_list (map odds_ratio gene_data) / real (length gene_data))
         + 0.2 * real (length gene_data))"
proof -
  have m: "series_min (map p_value gene_data) = Some (Min (set (map p_value gene_data)))"
    using ne by (simp add: series_min_Min)
  have "Min (set (map p_value gene_data)) \<in> set (map p_value gene_data)"
    using ne by (intro Min_in) simp_all
  then have mp: "0 < Min (set (map p_value gene_data))" using pos by auto
  show ?thesis
    using ne mp by (simp add: calculate_risk_score_def m np_log10_def series_mean_def)
qed

lemma map_of_gene_risk_scores:
  assumes "gene \<in> set (map host_gene df)"
  shows "map_of (gene_risk_scores df) gene = Some (calculate_risk_score (select_gene df gene))"
proof -
  have "gene \<in> set (unique (map host_gene df))"
    using assms by (simp only: set_unique)
  then show ?thesis
    unfolding gene_risk_scores_def
    by (induction "unique (map host_gene df)") (auto simp: map_of_map_restrict)
qed

text \<open>
  Claim C1. For every gene with at least one record in the table, the score the script
  stores for the gene is 0.4 times the negated decimal logarithm of the least
  \<open>p_value\<close> of the gene's records, plus 0.4 times the arithmetic mean of their
  \<open>odds_ratio\<close>, plus 0.2 times their number. The p-values of the gene are positive,
  as p-values of the data model are; the logarithm of anything else is not a finite
  number.
\<close>

theorem risk_score_formula:
  assumes "gene \<in> set (map host_gene df)"
      and "\<forall>r\<in>set df. host_gene r = gene \<longrightarrow> 0 < p_value r"
  shows "map_of (gene_risk_scores df) gene =
     Some (Some (0.4 * (- log 10 (Min (set (map p_value [r\<leftarrow>df. host_gene r = gene]))))
         + 0.4 * (sum_list (map odds_ratio [r\<leftarrow>df. host_gene r = gene])
                   / real (length [r\<leftarrow>df. host_gene r = gene]))
         + 0.2 * real (length [r\<leftarrow>df. host_gene r = gene])))"
proof -
  have ne: "select_gene df gene \<noteq> []"
    using assms(1) by (auto simp: select_gene_def filter_empty_conv)
  have pos: "\<forall>r\<in>set (select_gene df gene). 0 < p_value r"
    using assms(2) by (simp add: select_gene_def)
  show ?thesis
    using risk_score_value [OF ne pos] map_of_gene_risk_scores [OF assms(1)]
    by (simp add: select_gene_def)
qed

theorem risk_score_formula_witness:
  "''TYK2'' \<in> set (map host_gene three_records) \<and>
   map_of (gene_risk_scores three_records) ''TYK2'' =
     Some (Some (0.4 * (- log 10 0.0000001) + 0.4 * ((2 + 1.5) / 2) + 0.2 * 2))"
proof -
  have g: "''TYK2'' \<in> set (map host_gene three_records)"
    by (simp add: three_records_def row_of_def)
  have p: "\<forall>r\<in>set three_records. host_gene r = ''TYK2'' \<longrightarrow> 0 < p_value r"
    by (simp add: three_records_def row_of_def)
  show ?thesis
    using g risk_score_formula [OF g p] by (simp add: three_records_def row_of_def)
qed


subsection \<open>Risk score in double precision\<close>

text \<open>Rounding to nearest is monotone, and it can be evaluated once the binade of its
  argument is known.\<close>

lemma rne_of_int: "rne (of_int n) = n"
  by (simp add: rne_def)

lemma rne_lower: "\<lfloor>y\<rfloor> \<le> rne y"
  by (simp add: rne_def Let_def)

lemma rne_upper: "rne y \<le> \<lfloor>y\<rfloor> + 1"
  by (simp add: rne_def Let_def)

lemma rne_mono: "y \<le> z \<Longrightarrow> rne y \<le> rne z"
proof -
  assume yz: "y \<le> z"
  then have fl: "\<lfloor>y\<rfloor> \<le> \<lfloor>z\<rfloor>" by (rule floor_mono)
  show ?thesis
  proof (cases "\<lfloor>y\<rfloor> = \<lfloor>z\<rfloor>")
    case True
    then have "y - of_int \<lfloor>y\<rfloor> \<le> z - of_int \<lfloor>z\<rfloor>" using yz by simp
    then show ?thesis using True by (auto simp: rne_def Let_def)
  next
    case False
    with fl have "\<lfloor>y\<rfloor> + 1 \<le> \<lfloor>z\<rfloor>" by simp
    with rne_upper [of y] rne_lower [of z] show ?thesis by linarith
  qed
qed

lemma real_le_of_int: "a \<le> b \<Longrightarrow> real_of_int a \<le> real_of_int b"
  by simp

lemma rne_ge_int: "of_int n \<le> y \<Longrightarrow> n \<le> rne y"
  using rne_mono [of "of_int n" y] by (simp add: rne_of_int)

lemma rne_le_int: "y \<le> of_int n \<Longrightarrow> rne y \<le> n"
  using rne_mono [of y "of_int n"] by (simp add: rne_of_int)

lemma binade:
  assumes "0 < x"
  shows "2 powr of_int \<lfloor>log 2 x\<rfloor> \<le> x" and "x < 2 powr (of_int \<lfloor>log 2 x\<rfloor> + 1)"
proof -
  have "of_int \<lfloor>log 2 x\<rfloor> \<le> log 2 x" by (rule of_int_floor_le)
  with le_log_iff [of 2 x "of_int \<lfloor>log 2 x\<rfloor>"] assms
  show "2 powr of_int \<lfloor>log 2 x\<rfloor> \<le> x" by simp
  have "\<not> of_int \<lfloor>log 2 x\<rfloor> + 1 \<le> log 2 x" by linarith
  with le_log_iff [of 2 x "of_int \<lfloor>log 2 x\<rfloor> + 1"] assms
  show "x < 2 powr (of_int \<lfloor>log 2 x\<rfloor> + 1)" by simp
qed

lemma scaled:
  assumes "0 < x"
  shows "2 ^ t \<le> x / 2 powr (of_int \<lfloor>log 2 x\<rfloor> - real t)"
    and "x / 2 powr (of_int \<lfloor>log 2 x\<rfloor> - real t) < 2 * 2 ^ t"
proof -
  let ?e = "of_int \<lfloor>log 2 x\<rfloor> :: real"
  have p: "(0::real) < 2 powr ?e" by simp
  have q: "x / 2 powr (?e - real t) = x / 2 powr ?e * 2 ^ t"
    by (simp add: powr_diff powr_realpow)
  have 1: "1 \<le> x / 2 powr ?e" using binade(1) [OF assms] p by simp
  have "x < 2 powr ?e * 2" using binade(2) [OF assms] by (simp add: powr_add)
  then have 2: "x / 2 powr ?e < 2" using p by (simp add: divide_less_eq mult.commute)
  have pw: "(0::real) < 2 ^ t" by simp
  show "2 ^ t \<le> x / 2 powr (?e - real t)"
    unfolding q using mult_right_mono [OF 1, of "2 ^ t"] by simp
  show "x / 2 powr (?e - real t) < 2 * 2 ^ t"
    unfolding q using mult_strict_right_mono [OF 2 pw] by simp
qed

lemma round_pos_bounds:
  assumes "0 < x"
  shows "2 powr of_int \<lfloor>log 2 x\<rfloor> \<le> round_to_bits t x"
    and "round_to_bits t x \<le> 2 powr (of_int \<lfloor>log 2 x\<rfloor> + 1)"
proof -
  let ?e = "of_int \<lfloor>log 2 x\<rfloor> :: real"
  let ?q = "2 powr (?e - real t) :: real"
  have qpos: "0 < ?q" by simp
  have q: "2 powr ?e = 2 ^ t * ?q"
    by (simp add: powr_diff powr_realpow)
  have q2: "2 powr (?e + 1) = (2 * 2 ^ t) * ?q"
    by (simp add: powr_diff powr_add powr_realpow)
  have b: "round_to_bits t x = of_int (rne (x / ?q)) * ?q"
    using assms by (simp add: round_to_bits_def Let_def)
  have "(2::int) ^ t \<le> rne (x / ?q)"
    using scaled(1) [OF assms, of t] by (intro rne_ge_int) simp
  from real_le_of_int [OF this] have lo: "(2::real) ^ t \<le> of_int (rne (x / ?q))"
    by simp
  have "rne (x / ?q) \<le> 2 * 2 ^ t"
    using scaled(2) [OF assms, of t] by (intro rne_le_int) simp
  from real_le_of_int [OF this] have hi: "of_int (rne (x / ?q)) \<le> (2::real) * 2 ^ t"
    by simp
  show "2 powr ?e \<le> round_to_bits t x"
    unfolding q b using lo qpos by (intro mult_right_mono) simp_all
  show "round_to_bits t x \<le> 2 powr (?e + 1)"
    unfolding q2 b using hi qpos by (intro mult_right_mono) simp_all
qed

lemma round_neg_bounds:
  assumes "x < 0"
  shows "- (2 powr (of_int \<lfloor>log 2 (- x)\<rfloor> + 1)) \<le> round_to_bits t x"
    and "round_to_bits t x \<le> - (2 powr of_int \<lfloor>log 2 (- x)\<rfloor>)"
proof -
  let ?e = "of_int \<lfloor>log 2 (- x)\<rfloor> :: real"
  let ?q = "2 powr (?e - real t) :: real"
  have qpos: "0 < ?q" by simp
  have q: "2 powr ?e = 2 ^ t * ?q"
    by (simp add: powr_diff powr_realpow)
  have q2: "2 powr (?e + 1) = (2 * 2 ^ t) * ?q"
    by (simp add: powr_diff powr_add powr_realpow)
  have b: "round_to_bits t x = of_int (rne (x / ?q)) * ?q"
    using assms by (simp add: round_to_bits_def Let_def)
  from assms have nx: "0 < - x" by simp
  have s1: "x / ?q \<le> - (2 ^ t)" using scaled(1) [OF nx, of t] by simp
  have s2: "- (2 * 2 ^ t) \<le> x / ?q" using scaled(2) [OF nx, of t] by simp
  have "rne (x / ?q) \<le> - (2 ^ t)"
    using s1 by (intro rne_le_int) simp
  from real_le_of_int [OF this] have hi: "of_int (rne (x / ?q)) \<le> - ((2::real) ^ t)"
    by simp
  have "- (2 * 2 ^ t) \<le> rne (x / ?q)"
    using s2 by (intro rne_ge_int) simp
  from real_le_of_int [OF this] have lo: "- ((2::real) * 2 ^ t) \<le> of_int (rne (x / ?q))"
    by simp
  have "- (2 powr (?e + 1)) = (- (2 * 2 ^ t)) * ?q" by (simp add: q2)
  then show "- (2 powr (?e + 1)) \<le> round_to_bits t x"
    unfolding b using lo qpos by (simp only:) (intro mult_right_mono, simp_all)
  have "- (2 powr ?e) = (- (2 ^ t)) * ?q" by (simp add: q)
  then show "round_to_bits t x \<le> - (2 powr ?e)"
    unfolding b using hi qpos by (simp only:) (intro mult_right_mono, simp_all)
qed

lemma round_zero: "round_to_bits t 0 = 0"
  by (simp add: round_to_bits_def)

lemma round_pos: "0 < x \<Longrightarrow> 0 < round_to_bits t x"
proof -
  assume "0 < x"
  from round_pos_bounds(1) [OF this, of t] show ?thesis
    by (rule less_le_trans [rotated]) simp
qed

lemma round_neg: "x < 0 \<Longrightarrow> round_to_bits t x < 0"
proof -
  assume "x < 0"
  from round_neg_bounds(2) [OF this, of t] show ?thesis
    by (rule le_less_trans) simp
qed

lemma round_mono_pos:
  assumes "0 < x" and "x \<le> y"
  shows "round_to_bits t x \<le> round_to_bits t y"
proof -
  from assms have y: "0 < y" by simp
  have "log 2 x \<le> log 2 y" using assms y by simp
  then have e: "\<lfloor>log 2 x\<rfloor> \<le> \<lfloor>log 2 y\<rfloor>" by (rule floor_mono)
  show ?thesis
  proof (cases "\<lfloor>log 2 x\<rfloor> = \<lfloor>log 2 y\<rfloor>")
    case True
    let ?q = "2 powr (of_int \<lfloor>log 2 y\<rfloor> - real t) :: real"
    have q: "0 < ?q" by simp
    have bx: "round_to_bits t x = of_int (rne (x / ?q)) * ?q"
      using assms(1) True by (simp add: round_to_bits_def Let_def)
    have by': "round_to_bits t y = of_int (rne (y / ?q)) * ?q"
      using y by (simp add: round_to_bits_def Let_def)
    have "x / ?q \<le> y / ?q" using assms(2) q by (simp add: divide_right_mono)
    from real_le_of_int [OF rne_mono [OF this]] show ?thesis
      unfolding bx by' using q by (intro mult_right_mono) simp_all
  next
    case False
    with e have "of_int \<lfloor>log 2 x\<rfloor> + 1 \<le> (of_int \<lfloor>log 2 y\<rfloor> :: real)" by linarith
    then have "2 powr (of_int \<lfloor>log 2 x\<rfloor> + 1) \<le> (2::real) powr of_int \<lfloor>log 2 y\<rfloor>"
      by (intro powr_mono) simp_all
    with round_pos_bounds(2) [OF assms(1), of t] round_pos_bounds(1) [OF y, of t]
    show ?thesis by linarith
  qed
qed

lemma round_mono_neg:
  assumes "y < 0" and "x \<le> y"
  shows "round_to_bits t x \<le> round_to_bits t y"
proof -
  from assms have x: "x < 0" by simp
  have "log 2 (- y) \<le> log 2 (- x)" using assms x by simp
  then have e: "\<lfloor>log 2 (- y)\<rfloor> \<le> \<lfloor>log 2 (- x)\<rfloor>" by (rule floor_mono)
  show ?thesis
  proof (cases "\<lfloor>log 2 (- y)\<rfloor> = \<lfloor>log 2 (- x)\<rfloor>")
    case True
    let ?q = "2 powr (of_int \<lfloor>log 2 (- x)\<rfloor> - real t) :: real"
    have q: "0 < ?q" by simp
    have bx: "round_to_bits t x = of_int (rne (x / ?q)) * ?q"
      using x by (simp add: round_to_bits_def Let_def)
    have by': "round_to_bits t y = of_int (rne (y / ?q)) * ?q"
      using assms(1) True by (simp add: round_to_bits_def Let_def)
    have "x / ?q \<le> y / ?q" using assms(2) q by (simp add: divide_right_mono)
    from real_le_of_int [OF rne_mono [OF this]] show ?thesis
      unfolding bx by' using q by (intro mult_right_mono) simp_all
  next
    case False
    with e have "of_int \<lfloor>log 2 (- y)\<rfloor> + 1 \<le> (of_int \<lfloor>log 2 (- x)\<rfloor> :: real)" by linarith
    then have "2 powr (of_int \<lfloor>log 2 (- y)\<rfloor> + 1) \<le> (2::real) powr of_int \<lfloor>log 2 (- x)\<rfloor>"
      by (intro powr_mono) simp_all
    with round_neg_bounds(2) [OF x, of t] round_neg_bounds(1) [OF assms(1), of t]
    show ?thesis by linarith
  qed
qed

lemma round_mono: "x \<le> y \<Longrightarrow> round_to_bits t x \<le> round_to_bits t y"
proof -
  assume xy: "x \<le> y"
  consider "0 < x" | "y < 0" | "x \<le> 0" "0 \<le> y" by linarith
  then show ?thesis
  proof cases
    case 1
    then show ?thesis using xy by (rule round_mono_pos)
  next
    case 2
    then show ?thesis using xy by (rule round_mono_neg)
  next
    case 3
    have "round_to_bits t x \<le> 0"
      using 3(1) round_neg [of x t] by (cases "x = 0") (simp_all add: round_zero)
    moreover have "0 \<le> round_to_bits t y"
      using 3(2) round_pos [of y t] by (cases "y = 0") (simp_all add: round_zero)
    ultimately show ?thesis by simp
  qed
qed

lemma binary64_mono: "x \<le> y \<Longrightarrow> binary64 x \<le> binary64 y"
  by (simp add: binary64_def round_mono)

lemma binary64_zero: "binary64 0 = 0"
  by (simp add: binary64_def round_zero)

lemma round_eval:
  assumes "0 < x" and lo: "2 ^ t \<le> x * 2 ^ k" and hi: "x * 2 ^ k < 2 * 2 ^ t"
  shows "round_to_bits t x = of_int (rne (x * 2 ^ k)) / 2 ^ k"
proof -
  let ?z = "int t - int k"
  have pz: "2 powr (of_int ?z) = (2::real) ^ t / 2 ^ k"
    by (simp add: powr_diff powr_realpow)
  have k: "(0::real) < 2 ^ k" by simp
  have 1: "2 powr (of_int ?z) \<le> x"
    unfolding pz using lo k by (simp add: divide_le_eq)
  have 2: "x < 2 powr (of_int ?z + 1)"
    unfolding powr_add pz using hi k by (simp add: less_divide_eq mult.commute)
  have "of_int ?z \<le> log 2 x"
    using le_log_iff [of 2 x "of_int ?z"] assms(1) 1 by simp
  moreover have "log 2 x < of_int ?z + 1"
    using le_log_iff [of 2 x "of_int ?z + 1"] assms(1) 2 by (simp add: not_le [symmetric])
  ultimately have e: "\<lfloor>log 2 x\<rfloor> = ?z" by (simp add: floor_eq_iff)
  have q: "2 powr (of_int \<lfloor>log 2 x\<rfloor> - real t) = 1 / (2::real) ^ k"
    by (simp add: e powr_minus powr_realpow inverse_eq_divide)
  have b: "round_to_bits t x =
      of_int (rne (x / 2 powr (of_int \<lfloor>log 2 x\<rfloor> - real t)))
        * 2 powr (of_int \<lfloor>log 2 x\<rfloor> - real t)"
    using assms(1) by (simp add: round_to_bits_def Let_def)
  show ?thesis
    unfolding b q by simp
qed

lemma binary64_eval:
  assumes "0 < x" and "2 ^ 52 \<le> x * 2 ^ k" and "x * 2 ^ k < 2 * 2 ^ 52"
  shows "binary64 x = of_int (rne (x * 2 ^ k)) / 2 ^ k"
  unfolding binary64_def using assms by (rule round_eval)

lemma literal_04: "binary64 0.4 = 3602879701896397 / 2 ^ 53"
  by (subst binary64_eval [where k = 54]) (simp_all add: rne_def)

lemma binary64_nonneg: "0 \<le> x \<Longrightarrow> 0 \<le> binary64 x"
  using binary64_mono [of 0 x] by (simp add: binary64_zero)

lemma literal_04_nonneg: "0 \<le> binary64 0.4"
  by (rule binary64_nonneg) simp

lemma literal_02_nonneg: "0 \<le> binary64 0.2"
  by (rule binary64_nonneg) simp

lemma product_tie: "binary64 (1.5 * binary64 0.4) = 5404319552844596 / 2 ^ 53"
  unfolding literal_04
  by (subst binary64_eval [where k = 53]) (simp_all add: rne_def)

lemma product_next: "binary64 ((1.5 + 1 / 2 ^ 52) * binary64 0.4) = 5404319552844596 / 2 ^ 53"
  unfolding literal_04
  by (subst binary64_eval [where k = 53]) (simp_all add: rne_def)

lemma double_15: "binary64 1.5 = 1.5"
  by (subst binary64_eval [where k = 52]) (simp_all add: rne_def)

lemma double_15_next: "binary64 (1.5 + 1 / 2 ^ 52) = 1.5 + 1 / 2 ^ 52"
  by (subst binary64_eval [where k = 52]) (simp_all add: rne_def)

lemma double_p17: "binary64 (1 / 2 ^ 17) = 1 / 2 ^ 17"
  by (subst binary64_eval [where k = 69]) (simp_all add: rne_def)

lemma double_score_value:
  assumes "series_min (map p_value g) = Some p" and "0 < p"
      and "mean_f (map odds_ratio g) = Some m"
  shows "calculate_risk_score_double log10_f mean_f g =
     Some (binary64 (binary64 (binary64 (- log10_f p * binary64 0.4) + binary64 (m * binary64 0.4))
                     + binary64 (real (length g) * binary64 0.2)))"
  using assms by (simp add: calculate_risk_score_double_def Let_def)

lemma double_score_mono:
  assumes "l2 \<le> l1" and "m1 \<le> m2"
  shows "binary64 (binary64 (binary64 (- l1 * binary64 0.4) + binary64 (m1 * binary64 0.4)) + c)
       \<le> binary64 (binary64 (binary64 (- l2 * binary64 0.4) + binary64 (m2 * binary64 0.4)) + c)"
proof -
  have "- l1 * binary64 0.4 \<le> - l2 * binary64 0.4"
    using assms(1) literal_04_nonneg by (intro mult_right_mono) simp_all
  then have a: "binary64 (- l1 * binary64 0.4) \<le> binary64 (- l2 * binary64 0.4)"
    by (rule binary64_mono)
  have "m1 * binary64 0.4 \<le> m2 * binary64 0.4"
    using assms(2) literal_04_nonneg by (intro mult_right_mono) simp_all
  then have b: "binary64 (m1 * binary64 0.4) \<le> binary64 (m2 * binary64 0.4)"
    by (rule binary64_mono)
  from add_mono [OF a b]
  have "binary64 (binary64 (- l1 * binary64 0.4) + binary64 (m1 * binary64 0.4))
      \<le> binary64 (binary64 (- l2 * binary64 0.4) + binary64 (m2 * binary64 0.4))"
    by (rule binary64_mono)
  from add_right_mono [OF this, of c] show ?thesis by (rule binary64_mono)
qed

text \<open>
  Claim C5, in double precision and in the form that holds there: the order is kept, not
  strictly. Let \<open>np.log10\<close> be non-decreasing on the positive doubles. Of two genes with
  the same number of records and the same mean odds ratio, the one with the smaller
  minimum p-value has a risk score at least as large; of two genes with the same number of
  records and the same minimum p-value, the one with the larger mean odds ratio has a
  risk score at least as large. In both cases the two scores are finite numbers.
\<close>

theorem risk_score_double_monotone:
  assumes "\<forall>x y. 0 < x \<and> x \<le> y \<longrightarrow> log10_f x \<le> log10_f y"
  shows
    "(length g1 = length g2 \<and>
      mean_f (map odds_ratio g1) = Some m \<and> mean_f (map odds_ratio g2) = Some m \<and>
      series_min (map p_value g1) = Some p1 \<and> series_min (map p_value g2) = Some p2 \<and>
      0 < p1 \<and> p1 < p2
      \<longrightarrow> (\<exists>s1 s2. calculate_risk_score_double log10_f mean_f g1 = Some s1 \<and>
                   calculate_risk_score_double log10_f mean_f g2 = Some s2 \<and> s2 \<le> s1))
     \<and>
     (length g1 = length g2 \<and>
      series_min (map p_value g1) = Some p \<and> series_min (map p_value g2) = Some p \<and> 0 < p \<and>
      mean_f (map odds_ratio g1) = Some m1 \<and> mean_f (map odds_ratio g2) = Some m2 \<and>
      m1 < m2
      \<longrightarrow> (\<exists>s1 s2. calculate_risk_score_double log10_f mean_f g1 = Some s1 \<and>
                   calculate_risk_score_double log10_f mean_f g2 = Some s2 \<and> s1 \<le> s2))"
proof (intro conjI impI)
  assume h: "length g1 = length g2 \<and>
      mean_f (map odds_ratio g1) = Some m \<and> mean_f (map odds_ratio g2) = Some m \<and>
      series_min (map p_value g1) = Some p1 \<and> series_min (map p_value g2) = Some p2 \<and>
      0 < p1 \<and> p1 < p2"
  then have p2: "0 < p2" by simp
  from h assms have l: "log10_f p1 \<le> log10_f p2" by simp
  have s1: "calculate_risk_score_double log10_f mean_f g1 =
     Some (binary64 (binary64 (binary64 (- log10_f p1 * binary64 0.4) + binary64 (m * binary64 0.4))
                     + binary64 (real (length g1) * binary64 0.2)))"
    using h by (intro double_score_value) simp_all
  have s2: "calculate_risk_score_double log10_f mean_f g2 =
     Some (binary64 (binary64 (binary64 (- log10_f p2 * binary64 0.4) + binary64 (m * binary64 0.4))
                     + binary64 (real (length g1) * binary64 0.2)))"
    using h p2 double_score_value [of g2 p2 mean_f m log10_f] by simp
  from double_score_mono [OF l, of m m] s1 s2
  show "\<exists>s1 s2. calculate_risk_score_double log10_f mean_f g1 = Some s1 \<and>
                   calculate_risk_score_double log10_f mean_f g2 = Some s2 \<and> s2 \<le> s1"
    by simp
next
  assume h: "length g1 = length g2 \<and>
      series_min (map p_value g1) = Some p \<and> series_min (map p_value g2) = Some p \<and> 0 < p \<and>
      mean_f (map odds_ratio g1) = Some m1 \<and> mean_f (map odds_ratio g2) = Some m2 \<and>
      m1 < m2"
  have s1: "calculate_risk_score_double log10_f mean_f g1 =
     Some (binary64 (binary64 (binary64 (- log10_f p * binary64 0.4) + binary64 (m1 * binary64 0.4))
                     + binary64 (real (length g1) * binary64 0.2)))"
    using h by (intro double_score_value) simp_all
  have s2: "calculate_risk_score_double log10_f mean_f g2 =
     Some (binary64 (binary64 (binary64 (- log10_f p * binary64 0.4) + binary64 (m2 * binary64 0.4))
                     + binary64 (real (length g1) * binary64 0.2)))"
    using h double_score_value [of g2 p mean_f m2 log10_f] by simp
  from h have "m1 \<le> m2" by simp
  from double_score_mono [OF order_refl this] s1 s2
  show "\<exists>s1 s2. calculate_risk_score_double log10_f mean_f g1 = Some s1 \<and>
                   calculate_risk_score_double log10_f mean_f g2 = Some s2 \<and> s1 \<le> s2"
    by simp
qed

lemma log10_nearest_mono: "\<forall>x y. 0 < x \<and> x \<le> y \<longrightarrow> log10_nearest x \<le> log10_nearest y"
  by (simp add: log10_nearest_def binary64_mono)

lemma mean_one: "binary64 x = x \<Longrightarrow> mean_sequential [x] = Some x"
  by (simp add: mean_sequential_def)

text \<open>
  The order is not strict, as the claim has it. Two genes of one record each, with the
  same p-value \<open>1 / 2 ^ 17\<close> and the odds ratios 1.5 and \<open>1.5 + 1 / 2 ^ 52\<close>, which are adjacent
  doubles: the mean odds ratios are these two numbers, the second strictly larger, but
  their products with the double 0.4 round to the same double, and the two risk scores
  are equal.
\<close>

theorem strict_order_counterexample:
  "binary64 (1 / 2 ^ 17) = 1 / 2 ^ 17 \<and> binary64 1.5 = 1.5 \<and>
   binary64 (1.5 + 1 / 2 ^ 52) = 1.5 + 1 / 2 ^ 52 \<and>
   mean_sequential (map odds_ratio [row_of ''TYK2'' (1 / 2 ^ 17) 1.5 ''ARDS'']) = Some 1.5 \<and>
   mean_sequential (map odds_ratio [row_of ''ACE2'' (1 / 2 ^ 17) (1.5 + 1 / 2 ^ 52) ''Sepsis''])
     = Some (1.5 + 1 / 2 ^ 52) \<and>
   calculate_risk_score_double log10_nearest mean_sequential
       [row_of ''TYK2'' (1 / 2 ^ 17) 1.5 ''ARDS'']
     = calculate_risk_score_double log10_nearest mean_sequential
       [row_of ''ACE2'' (1 / 2 ^ 17) (1.5 + 1 / 2 ^ 52) ''Sepsis''] \<and>
   calculate_risk_score_double log10_nearest mean_sequential
       [row_of ''TYK2'' (1 / 2 ^ 17) 1.5 ''ARDS''] \<noteq> None"
proof -
  have m1: "mean_sequential (map odds_ratio [row_of ''TYK2'' (1 / 2 ^ 17) 1.5 ''ARDS'']) = Some 1.5"
    using mean_one [OF double_15] by (simp add: row_of_def)
  have m2: "mean_sequential (map odds_ratio [row_of ''ACE2'' (1 / 2 ^ 17) (1.5 + 1 / 2 ^ 52) ''Sepsis''])
     = Some (1.5 + 1 / 2 ^ 52)"
    using mean_one [OF double_15_next] by (simp add: row_of_def)
  have p1: "series_min (map p_value [row_of ''TYK2'' (1 / 2 ^ 17) 1.5 ''ARDS'']) = Some (1 / 2 ^ 17)"
    by (simp add: series_min_def row_of_def)
  have p2: "series_min (map p_value [row_of ''ACE2'' (1 / 2 ^ 17) (1.5 + 1 / 2 ^ 52) ''Sepsis''])
     = Some (1 / 2 ^ 17)"
    by (simp add: series_min_def row_of_def)
  have pos: "(0::real) < 1 / 2 ^ 17" by simp
  note s1 = double_score_value [where mean_f = mean_sequential and log10_f = log10_nearest,
      OF p1 pos m1]
  note s2 = double_score_value [where mean_f = mean_sequential and log10_f = log10_nearest,
      OF p2 pos m2]
  have eq: "calculate_risk_score_double log10_nearest mean_sequential
       [row_of ''TYK2'' (1 / 2 ^ 17) 1.5 ''ARDS'']
     = calculate_risk_score_double log10_nearest mean_sequential
       [row_of ''ACE2'' (1 / 2 ^ 17) (1.5 + 1 / 2 ^ 52) ''Sepsis'']"
    unfolding s1 s2 product_tie product_next by simp
  have ne: "calculate_risk_score_double log10_nearest mean_sequential
       [row_of ''TYK2'' (1 / 2 ^ 17) 1.5 ''ARDS''] \<noteq> None"
    unfolding s1 by simp
  from double_p17 double_15 double_15_next m1 m2 eq ne show ?thesis by (intro conjI)
qed

text \<open>The theorem on two pairs of genes: one record each, p-values \<open>1 / 2 ^ 17\<close> and
  \<open>1 / 2 ^ 16\<close> with the odds ratio 1.5, and the odds ratios 1.5 and \<open>1.5 + 1 / 2 ^ 52\<close> with
  the p-value \<open>1 / 2 ^ 17\<close>.\<close>

theorem risk_score_double_monotone_witness:
  "(\<exists>s1 s2. calculate_risk_score_double log10_nearest mean_sequential
                [row_of ''TYK2'' (1 / 2 ^ 17) 1.5 ''ARDS''] = Some s1 \<and>
             calculate_risk_score_double log10_nearest mean_sequential
                [row_of ''ACE2'' (1 / 2 ^ 16) 1.5 ''Sepsis''] = Some s2 \<and> s2 \<le> s1) \<and>
   (\<exists>s1 s2. calculate_risk_score_double log10_nearest mean_sequential
                [row_of ''TYK2'' (1 / 2 ^ 17) 1.5 ''ARDS''] = Some s1 \<and>
             calculate_risk_score_double log10_nearest mean_sequential
                [row_of ''ACE2'' (1 / 2 ^ 17) (1.5 + 1 / 2 ^ 52) ''Sepsis''] = Some s2 \<and> s1 \<le> s2)"
proof
  have m: "mean_sequential (map odds_ratio [row_of ''TYK2'' (1 / 2 ^ 17) 1.5 ''ARDS'']) = Some 1.5"
      "mean_sequential (map odds_ratio [row_of ''ACE2'' (1 / 2 ^ 16) 1.5 ''Sepsis'']) = Some 1.5"
    using mean_one [OF double_15] by (simp_all add: row_of_def)
  have m2: "mean_sequential (map odds_ratio [row_of ''ACE2'' (1 / 2 ^ 17) (1.5 + 1 / 2 ^ 52) ''Sepsis''])
     = Some (1.5 + 1 / 2 ^ 52)"
    using mean_one [OF double_15_next] by (simp add: row_of_def)
  have p: "series_min (map p_value [row_of ''TYK2'' (1 / 2 ^ 17) 1.5 ''ARDS'']) = Some (1 / 2 ^ 17)"
      "series_min (map p_value [row_of ''ACE2'' (1 / 2 ^ 16) 1.5 ''Sepsis'']) = Some (1 / 2 ^ 16)"
      "series_min (map p_value [row_of ''ACE2'' (1 / 2 ^ 17) (1.5 + 1 / 2 ^ 52) ''Sepsis''])
         = Some (1 / 2 ^ 17)"
    by (simp_all add: series_min_def row_of_def)
  note a = risk_score_double_monotone [OF log10_nearest_mono,
      where mean_f = mean_sequential and m = "1.5" and ?p1.0 = "1 / 2 ^ 17" and ?p2.0 = "1 / 2 ^ 16"
        and ?g1.0 = "[row_of ''TYK2'' (1 / 2 ^ 17) 1.5 ''ARDS'']"
        and ?g2.0 = "[row_of ''ACE2'' (1 / 2 ^ 16) 1.5 ''Sepsis'']"]
  show "\<exists>s1 s2. calculate_risk_score_double log10_nearest mean_sequential
                [row_of ''TYK2'' (1 / 2 ^ 17) 1.5 ''ARDS''] = Some s1 \<and>
             calculate_risk_score_double log10_nearest mean_sequential
                [row_of ''ACE2'' (1 / 2 ^ 16) 1.5 ''Sepsis''] = Some s2 \<and> s2 \<le> s1"
    by (rule a [THEN conjunct1, THEN mp]) (intro conjI m p; simp)
  note b = risk_score_double_monotone [OF log10_nearest_mono,
      where mean_f = mean_sequential and p = "1 / 2 ^ 17" and ?m1.0 = "1.5"
        and ?m2.0 = "1.5 + 1 / 2 ^ 52"
        and ?g1.0 = "[row_of ''TYK2'' (1 / 2 ^ 17) 1.5 ''ARDS'']"
        and ?g2.0 = "[row_of ''ACE2'' (1 / 2 ^ 17) (1.5 + 1 / 2 ^ 52) ''Sepsis'']"]
  show "\<exists>s1 s2. calculate_risk_score_double log10_nearest mean_sequential
                [row_of ''TYK2'' (1 / 2 ^ 17) 1.5 ''ARDS''] = Some s1 \<and>
             calculate_risk_score_double log10_nearest mean_sequential
                [row_of ''ACE2'' (1 / 2 ^ 17) (1.5 + 1 / 2 ^ 52) ''Sepsis''] = Some s2 \<and> s1 \<le> s2"
    by (rule b [THEN conjunct2, THEN mp]) (intro conjI m m2 p; simp)
qed

subsection \<open>Gene-level summary\<close>



lemma groupby_keys: "map fst (groupby_host_gene df) = sort (unique (map host_gene df))"
  by (simp add: groupby_host_gene_def comp_def)










subsection \<open>Pathway enrichment\<close>

lemma pathway_entry_value:
  "pathway_entry genes unique_genes =
     Inr \<lparr> overlap = card (set genes \<inter> set unique_genes), total = length genes,
           enrichment_score =
             (if genes = [] then 0
              else real (card (set genes \<inter> set unique_genes)) / real (length genes)) \<rparr>"
  by (simp add: pathway_entry_def py_truediv_def Let_def)

lemma pathway_loop_total: "\<exists>res. pathway_loop cats ug acc = Inr res"
  by (induction cats ug acc rule: pathway_loop.induct) (simp_all add: pathway_entry_value)

lemma pathway_loop_other:
  "pathway_loop cats ug acc = Inr res \<Longrightarrow> k \<notin> fst ` set cats \<Longrightarrow> map_of res k = map_of acc k"
  by (induction cats ug acc rule: pathway_loop.induct)
     (auto simp: pathway_entry_value update_conv')

lemma pathway_loop_entry:
  "pathway_loop cats ug acc = Inr res \<Longrightarrow> distinct (map fst cats) \<Longrightarrow> (name, genes) \<in> set cats \<Longrightarrow>
   \<exists>e. map_of res name = Some e \<and> pathway_entry genes ug = Inr e"
proof (induction cats ug acc rule: pathway_loop.induct)
  case (1 ug acc)
  then show ?case by simp
next
  case (2 pathway gs rest ug acc)
  obtain e where e: "pathway_entry gs ug = Inr e"
    by (simp add: pathway_entry_value)
  with "2.prems"(1) have loop: "pathway_loop rest ug (AList.update pathway e acc) = Inr res"
    by simp
  show ?case
  proof (cases "(name, genes) = (pathway, gs)")
    case True
    have "pathway \<notin> fst ` set rest" using "2.prems"(2) by simp
    from pathway_loop_other [OF loop this] have "map_of res pathway = Some e"
      by (simp add: update_conv')
    with True e show ?thesis by simp
  next
    case False
    with "2.prems" have "(name, genes) \<in> set rest" "distinct (map fst rest)" by auto
    with "2.IH" [OF e loop] show ?thesis by blast
  qed
qed

lemma pathway_enrichment_entry:
  assumes "distinct (map fst cats)" and "(name, genes) \<in> set cats"
  shows "\<exists>res e. pathway_enrichment cats df = Inr res \<and> map_of res name = Some e \<and>
           overlap e = card (set genes \<inter> host_gene ` set df) \<and>
           total e = length genes \<and>
           enrichment_score e =
             (if genes = [] then 0
              else real (card (set genes \<inter> host_gene ` set df)) / real (length genes))"
proof -
  obtain res where res: "pathway_loop cats (unique (map host_gene df)) [] = Inr res"
    using pathway_loop_total by blast
  from pathway_loop_entry [OF res assms] obtain e where
    e: "map_of res name = Some e" "pathway_entry genes (unique (map host_gene df)) = Inr e"
    by blast
  have ug: "set (unique (map host_gene df)) = host_gene ` set df"
    by (simp add: set_unique)
  from e(2) have "e = \<lparr> overlap = card (set genes \<inter> host_gene ` set df), total = length genes,
           enrichment_score =
             (if genes = [] then 0
              else real (card (set genes \<inter> host_gene ` set df)) / real (length genes)) \<rparr>"
    unfolding pathway_entry_value ug by simp
  then have "overlap e = card (set genes \<inter> host_gene ` set df) \<and>
           total e = length genes \<and>
           enrichment_score e =
             (if genes = [] then 0
              else real (card (set genes \<inter> host_gene ` set df)) / real (length genes))"
    by simp
  with res e(1) show ?thesis by (simp add: pathway_enrichment_def)
qed

lemma taxonomy_keys: "distinct (map fst pathway_categories)"
  by (simp add: pathway_categories_def)

lemma taxonomy_sets: "(name, genes) \<in> set pathway_categories \<Longrightarrow> distinct genes \<and> genes \<noteq> []"
  by (auto simp: pathway_categories_def)

text \<open>
  Claim C2. For every pathway of the fixed taxonomy the script stores, without raising,
  an enrichment score equal to the overlap (the number of genes that are both in the
  pathway's gene set and among the host genes of the table) divided by the size of the
  pathway's gene set; and in any taxonomy a pathway whose gene list is empty gets the
  score 0, again without an exception.
\<close>

theorem pathway_enrichment_score:
  "(\<forall>(pathway, genes) \<in> set pathway_categories.
      \<exists>res e. pathway_enrichment pathway_categories df = Inr res \<and>
        map_of res pathway = Some e \<and>
        overlap e = card (set genes \<inter> host_gene ` set df) \<and>
        enrichment_score e = real (overlap e) / real (card (set genes))) \<and>
   (distinct (map fst cats) \<and> (pathway', []) \<in> set cats \<longrightarrow>
      (\<exists>res e. pathway_enrichment cats df = Inr res \<and>
        map_of res pathway' = Some e \<and> enrichment_score e = 0))"
proof (intro conjI ballI impI)
  fix x assume x: "x \<in> set pathway_categories"
  obtain pathway genes where pg: "x = (pathway, genes)" by (cases x)
  from taxonomy_sets x pg have d: "distinct genes" "genes \<noteq> []" by blast+
  from pathway_enrichment_entry [OF taxonomy_keys, of pathway genes df] x pg
  obtain res e where "pathway_enrichment pathway_categories df = Inr res"
     "map_of res pathway = Some e" "overlap e = card (set genes \<inter> host_gene ` set df)"
     "enrichment_score e = real (card (set genes \<inter> host_gene ` set df)) / real (length genes)"
    using d by auto
  then show "case x of (pathway, genes) \<Rightarrow>
      \<exists>res e. pathway_enrichment pathway_categories df = Inr res \<and>
        map_of res pathway = Some e \<and>
        overlap e = card (set genes \<inter> host_gene ` set df) \<and>
        enrichment_score e = real (overlap e) / real (card (set genes))"
    using pg d by (auto simp: distinct_card)
next
  assume "distinct (map fst cats) \<and> (pathway', []) \<in> set cats"
  then show "\<exists>res e. pathway_enrichment cats df = Inr res \<and>
        map_of res pathway' = Some e \<and> enrichment_score e = 0"
    using pathway_enrichment_entry [of cats pathway' "[]" df] by auto
qed

text \<open>
  Claim C10. For every pathway of any taxonomy and any table, the stored overlap is at
  most the size of the pathway's gene set (and at most the stored total), and the
  enrichment score lies between 0 and 1. This holds for an empty gene list as well.
\<close>

theorem overlap_bounded:
  "distinct (map fst cats) \<and> (pathway, genes) \<in> set cats \<longrightarrow>
     (\<exists>res e. pathway_enrichment cats df = Inr res \<and> map_of res pathway = Some e \<and>
        overlap e \<le> card (set genes) \<and> overlap e \<le> total e \<and>
        0 \<le> enrichment_score e \<and> enrichment_score e \<le> 1)"
proof
  assume a: "distinct (map fst cats) \<and> (pathway, genes) \<in> set cats"
  then obtain res e where r: "pathway_enrichment cats df = Inr res" "map_of res pathway = Some e"
      "overlap e = card (set genes \<inter> host_gene ` set df)" "total e = length genes"
      "enrichment_score e =
             (if genes = [] then 0
              else real (card (set genes \<inter> host_gene ` set df)) / real (length genes))"
    using pathway_enrichment_entry [of cats pathway genes df] by blast
  have le1: "card (set genes \<inter> host_gene ` set df) \<le> card (set genes)"
    by (intro card_mono) simp_all
  have le2: "card (set genes) \<le> length genes" by (rule card_length)
  have "0 \<le> enrichment_score e \<and> enrichment_score e \<le> 1"
    using r(5) le1 le2 by (auto simp: divide_le_eq_1)
  with r le1 le2 show "\<exists>res e. pathway_enrichment cats df = Inr res \<and> map_of res pathway = Some e \<and>
        overlap e \<le> card (set genes) \<and> overlap e \<le> total e \<and>
        0 \<le> enrichment_score e \<and> enrichment_score e \<le> 1"
    by auto
qed

lemma viral_entry: "(''Viral Entry'', [''ACE2'', ''TMPRSS2'']) \<in> set pathway_categories"
  by (simp add: pathway_categories_def)

lemma viral_overlap: "card (set [''ACE2'', ''TMPRSS2''] \<inter> host_gene ` set three_records) = 1"
  by (simp add: three_records_def row_of_def)

theorem pathway_enrichment_score_witness:
  "(\<exists>res e. pathway_enrichment pathway_categories three_records = Inr res \<and>
      map_of res ''Viral Entry'' = Some e \<and> overlap e = 1 \<and> enrichment_score e = 1 / 2) \<and>
   (\<exists>res e. pathway_enrichment [(''No Genes'', [])] three_records = Inr res \<and>
      map_of res ''No Genes'' = Some e \<and> enrichment_score e = 0)"
proof
  from pathway_enrichment_score [of three_records] viral_entry
  have "\<exists>res e. pathway_enrichment pathway_categories three_records = Inr res \<and>
        map_of res ''Viral Entry'' = Some e \<and>
        overlap e = card (set [''ACE2'', ''TMPRSS2''] \<inter> host_gene ` set three_records) \<and>
        enrichment_score e = real (overlap e) / real (card (set [''ACE2'', ''TMPRSS2'']))"
    by blast
  then show "\<exists>res e. pathway_enrichment pathway_categories three_records = Inr res \<and>
      map_of res ''Viral Entry'' = Some e \<and> overlap e = 1 \<and> enrichment_score e = 1 / 2"
    unfolding viral_overlap by auto
next
  show "\<exists>res e. pathway_enrichment [(''No Genes'', [])] three_records = Inr res \<and>
      map_of res ''No Genes'' = Some e \<and> enrichment_score e = 0"
    using pathway_enrichment_score [of three_records "[(''No Genes'', [])]" "''No Genes''"]
    by simp
qed

theorem overlap_bounded_witness:
  "\<exists>res e. pathway_enrichment pathway_categories three_records = Inr res \<and>
      map_of res ''Viral Entry'' = Some e \<and> overlap e \<le> 2 \<and> overlap e \<le> total e \<and>
      0 \<le> enrichment_score e \<and> enrichment_score e \<le> 1"
  using overlap_bounded [of pathway_categories "''Viral Entry''" "[''ACE2'', ''TMPRSS2'']" three_records]
    viral_entry taxonomy_keys
  by (simp add: numeral_2_eq_2)

subsection \<open>Network metrics\<close>

lemma net0: "fst (create_test_network (np_const (1 / 2)) [''ACE2'', ''TYK2''] 0 0)
   = \<lparr>nodes = [''ACE2'', ''TYK2''], edges = []\<rparr>"
  by (simp add: create_test_network_def np_const_def empty_graph_def add_node_def)

lemma net1: "fst (create_test_network (np_const (1 / 2)) [''ACE2'', ''TYK2''] 1 0)
   = \<lparr>nodes = [''ACE2'', ''TYK2''], edges = [((''ACE2'', ''TYK2''), 27 / 40)]\<rparr>"
  by (simp add: create_test_network_def np_const_def empty_graph_def add_node_def add_edge_def
      uniform_def Let_def)


lemma max_from_mem: "max_from best rest \<in> set (best # rest)"
  by (induction rest arbitrary: best) auto

lemma max_from_ge_best: "snd best \<le> snd (max_from best rest)"
proof (induction rest arbitrary: best)
  case Nil
  show ?case by simp
next
  case (Cons kv rest)
  show ?case
  proof (cases "snd best < snd kv")
    case True
    with Cons.IH [of kv] show ?thesis by simp
  next
    case False
    with Cons.IH [of best] show ?thesis by simp
  qed
qed

lemma max_from_ge: "kv \<in> set (best # rest) \<Longrightarrow> snd kv \<le> snd (max_from best rest)"
proof (induction rest arbitrary: best)
  case Nil
  then show ?case by simp
next
  case (Cons x rest)
  show ?case
  proof (cases "snd best < snd x")
    case True
    from Cons.prems have "kv = best \<or> kv \<in> set (x # rest)" by auto
    then show ?thesis
    proof
      assume "kv = best"
      with True max_from_ge_best [of x rest] show ?thesis by simp
    next
      assume "kv \<in> set (x # rest)"
      from Cons.IH [OF this] True show ?thesis by simp
    qed
  next
    case False
    from Cons.prems have "kv = x \<or> kv \<in> set (best # rest)" by auto
    then show ?thesis
    proof
      assume "kv = x"
      with False max_from_ge_best [of best rest] show ?thesis by simp
    next
      assume "kv \<in> set (best # rest)"
      from Cons.IH [OF this] False show ?thesis by simp
    qed
  qed
qed

lemma py_max_key_hub:
  assumes "d \<noteq> []"
  shows "\<exists>hub v. py_max_key d = Inr hub \<and> (hub, v) \<in> set d \<and> (\<forall>kv\<in>set d. snd kv \<le> v)"
proof -
  from assms obtain kv rest where d: "d = kv # rest" by (cases d) auto
  have k: "py_max_key d = Inr (fst (max_from kv rest))" by (simp add: d py_max_key_def)
  have m: "(fst (max_from kv rest), snd (max_from kv rest)) \<in> set d"
    using max_from_mem [of kv rest] by (simp add: d)
  have g: "\<forall>x\<in>set d. snd x \<le> snd (max_from kv rest)"
    using max_from_ge [of _ kv rest] by (simp add: d)
  from k m g show ?thesis by blast
qed

text \<open>
  Claim C8. On a graph without edges the metrics step ends with the skip whatever the two
  centrality functions would do on that graph, also where they would raise: they are not
  consulted. On a graph with an edge both are consulted, first the degree centrality and
  then the betweenness centrality: the error either of them raises is the error of the
  step, and when both return, the step returns their two dictionaries and, as the top
  hub, a node of largest degree centrality (\<open>max\<close> raises on an empty dictionary).
\<close>

theorem metrics_computed_iff_edges:
  "(number_of_edges G = 0 \<longrightarrow> network_metrics dc bc G = Inr Skipped) \<and>
   (0 < number_of_edges G \<longrightarrow>
      (\<forall>e. dc G = Inl e \<longrightarrow> network_metrics dc bc G = Inl e) \<and>
      (\<forall>d e. dc G = Inr d \<and> bc G = Inl e \<longrightarrow> network_metrics dc bc G = Inl e) \<and>
      (\<forall>b. dc G = Inr [] \<and> bc G = Inr b \<longrightarrow> network_metrics dc bc G = Inl ValueError) \<and>
      (\<forall>d b. dc G = Inr d \<and> bc G = Inr b \<and> d \<noteq> [] \<longrightarrow>
         (\<exists>hub v. network_metrics dc bc G = Inr (Calculated d b hub) \<and>
                  (hub, v) \<in> set d \<and> (\<forall>kv\<in>set d. snd kv \<le> v))))"
proof (intro conjI impI allI)
  assume "number_of_edges G = 0"
  then show "network_metrics dc bc G = Inr Skipped" by (simp add: network_metrics_def)
next
  fix e
  assume "0 < number_of_edges G" and "dc G = Inl e"
  then show "network_metrics dc bc G = Inl e"
    by (simp add: network_metrics_def calculate_metrics_def)
next
  fix d e
  assume "0 < number_of_edges G" and "dc G = Inr d \<and> bc G = Inl e"
  then show "network_metrics dc bc G = Inl e"
    by (simp add: network_metrics_def calculate_metrics_def)
next
  fix b
  assume "0 < number_of_edges G" and "dc G = Inr [] \<and> bc G = Inr b"
  then show "network_metrics dc bc G = Inl ValueError"
    by (simp add: network_metrics_def calculate_metrics_def py_max_key_def)
next
  fix d b
  assume pos: "0 < number_of_edges G" and h: "dc G = Inr d \<and> bc G = Inr b \<and> d \<noteq> []"
  from h have "d \<noteq> []" by simp
  from py_max_key_hub [OF this] obtain hub v where
    k: "py_max_key d = Inr hub" and m: "(hub, v) \<in> set d" and g: "\<forall>kv\<in>set d. snd kv \<le> v"
    by blast
  from pos h k have "network_metrics dc bc G = Inr (Calculated d b hub)"
    by (simp add: network_metrics_def calculate_metrics_def)
  with m g show "\<exists>hub v. network_metrics dc bc G = Inr (Calculated d b hub) \<and>
                  (hub, v) \<in> set d \<and> (\<forall>kv\<in>set d. snd kv \<le> v)"
    by blast
qed

theorem metrics_computed_iff_edges_witness:
  "network_metrics (\<lambda>G. Inl (LibraryError ''degree'')) (\<lambda>G. Inl (LibraryError ''betweenness''))
      (fst (create_test_network (np_const (1 / 2)) [''ACE2'', ''TYK2''] 0 0)) = Inr Skipped \<and>
   network_metrics (\<lambda>G. Inl (LibraryError ''degree'')) (\<lambda>G. Inl (LibraryError ''betweenness''))
      (fst (create_test_network (np_const (1 / 2)) [''ACE2'', ''TYK2''] 1 0))
     = Inl (LibraryError ''degree'') \<and>
   network_metrics (\<lambda>G. Inr (map (\<lambda>n. (n, 1)) (nodes G))) (\<lambda>G. Inl (LibraryError ''betweenness''))
      (fst (create_test_network (np_const (1 / 2)) [''ACE2'', ''TYK2''] 1 0))
     = Inl (LibraryError ''betweenness'') \<and>
   network_metrics (\<lambda>G. Inr []) (\<lambda>G. Inr [])
      (fst (create_test_network (np_const (1 / 2)) [''ACE2'', ''TYK2''] 1 0))
     = Inl ValueError \<and>
   (\<exists>hub v. network_metrics (\<lambda>G. Inr (map (\<lambda>n. (n, 1)) (nodes G))) (\<lambda>G. Inr (map (\<lambda>n. (n, 0)) (nodes G)))
      (fst (create_test_network (np_const (1 / 2)) [''ACE2'', ''TYK2''] 1 0))
     = Inr (Calculated [(''ACE2'', 1), (''TYK2'', 1)] [(''ACE2'', 0), (''TYK2'', 0)] hub) \<and>
     (hub, v) \<in> set [(''ACE2'', 1::real), (''TYK2'', 1)] \<and> 1 \<le> v)"
proof -
  let ?G0 = "fst (create_test_network (np_const (1 / 2)) [''ACE2'', ''TYK2''] 0 0)"
  let ?G1 = "fst (create_test_network (np_const (1 / 2)) [''ACE2'', ''TYK2''] 1 0)"
  let ?raise_d = "\<lambda>G::Graph. Inl (LibraryError ''degree'') :: py_error + (string \<times> real) list"
  let ?raise_b = "\<lambda>G::Graph. Inl (LibraryError ''betweenness'') :: py_error + (string \<times> real) list"
  let ?ones = "\<lambda>G. Inr (map (\<lambda>n. (n, 1::real)) (nodes G)) :: py_error + (string \<times> real) list"
  let ?zeros = "\<lambda>G. Inr (map (\<lambda>n. (n, 0::real)) (nodes G)) :: py_error + (string \<times> real) list"
  let ?none = "\<lambda>G::Graph. Inr [] :: py_error + (string \<times> real) list"
  have e0: "number_of_edges ?G0 = 0" by (simp add: net0 number_of_edges_def)
  have e1: "0 < number_of_edges ?G1" by (simp add: net1 number_of_edges_def)
  have n1: "nodes ?G1 = [''ACE2'', ''TYK2'']" by (simp add: net1)
  note skip = metrics_computed_iff_edges [of ?G0 ?raise_d ?raise_b, THEN conjunct1, THEN mp, OF e0]
  note calc = metrics_computed_iff_edges [THEN conjunct2, THEN mp, OF e1]
  have a: "network_metrics ?raise_d ?raise_b ?G1 = Inl (LibraryError ''degree'')"
    by (rule calc [of ?raise_d ?raise_b, THEN conjunct1, THEN spec, THEN mp]) simp
  have b: "network_metrics ?ones ?raise_b ?G1 = Inl (LibraryError ''betweenness'')"
    by (rule calc [of ?ones ?raise_b, THEN conjunct2, THEN conjunct1, THEN spec, THEN spec, THEN mp])
      (simp add: n1)
  have c: "network_metrics ?none ?none ?G1 = Inl ValueError"
    by (rule calc [of ?none ?none, THEN conjunct2, THEN conjunct2, THEN conjunct1, THEN spec, THEN mp])
      simp
  have "\<exists>hub v. network_metrics ?ones ?zeros ?G1
        = Inr (Calculated [(''ACE2'', 1), (''TYK2'', 1)] [(''ACE2'', 0), (''TYK2'', 0)] hub) \<and>
        (hub, v) \<in> set [(''ACE2'', 1), (''TYK2'', 1)] \<and>
        (\<forall>kv\<in>set [(''ACE2'', 1::real), (''TYK2'', 1)]. snd kv \<le> v)"
    by (rule calc [of ?ones ?zeros, THEN conjunct2, THEN conjunct2, THEN conjunct2, THEN spec,
          THEN spec, THEN mp]) (simp add: n1)
  then have d: "\<exists>hub v. network_metrics ?ones ?zeros ?G1
        = Inr (Calculated [(''ACE2'', 1), (''TYK2'', 1)] [(''ACE2'', 0), (''TYK2'', 0)] hub) \<and>
        (hub, v) \<in> set [(''ACE2'', 1::real), (''TYK2'', 1)] \<and> 1 \<le> v"
    by simp
  from skip a b c d show ?thesis by (intro conjI)
qed

subsection \<open>Interaction graph\<close>

lemma inner_loop_fold:
  "inner_loop np p gene1 rest Gs = fold (loop_body np p) (map (Pair gene1) rest) Gs"
proof (induction rest arbitrary: Gs)
  case Nil
  show ?case by (cases Gs) simp
next
  case (Cons gene2 rest)
  obtain G s where Gs: "Gs = (G, s)" by (cases Gs)
  show ?case
    unfolding Gs
    by (simp add: loop_body_def Let_def Cons.IH split: prod.splits)
qed

lemma outer_loop_fold:
  "outer_loop np p genes Gs = fold (loop_body np p) (loop_pairs genes) Gs"
  by (induction genes arbitrary: Gs) (simp_all add: inner_loop_fold)

lemma create_test_network_fold:
  "create_test_network np genes p s =
     fold (loop_body np p) (loop_pairs genes) (fold (\<lambda>gene G. add_node G gene) genes empty_graph, s)"
  by (simp add: create_test_network_def outer_loop_fold)

lemma loop_body_cases:
  "fst (loop_body np p pair Gs) = fst Gs \<or>
   (\<exists>c. fst (loop_body np p pair Gs) = add_edge (fst Gs) (fst pair) (snd pair) c)"
  by (auto simp: loop_body_def Let_def split: prod.splits)

lemma loop_body_never:
  "unit_interval np \<Longrightarrow> fst (loop_body np 0 pair Gs) = fst Gs"
proof -
  assume u: "unit_interval np"
  have "\<not> fst (random_sample np (snd Gs)) < 0"
    using u by (simp add: unit_interval_def not_less)
  then show ?thesis
    by (auto simp: loop_body_def Let_def split: prod.splits)
qed

lemma loop_body_always:
  "unit_interval np \<Longrightarrow>
   \<exists>c. fst (loop_body np 1 pair Gs) = add_edge (fst Gs) (fst pair) (snd pair) c"
proof -
  assume u: "unit_interval np"
  have "fst (random_sample np (snd Gs)) < 1"
    using u by (simp add: unit_interval_def)
  then show ?thesis
    by (auto simp: loop_body_def Let_def split: prod.splits)
qed

lemma nodes_add_nodes:
  "nodes (fold (\<lambda>gene G. add_node G gene) genes G) = unique_acc (rev (nodes G)) genes"
  by (induction genes arbitrary: G) (simp_all add: add_node_def)

lemma nodes_add_edge:
  "u \<in> set (nodes G) \<Longrightarrow> v \<in> set (nodes G) \<Longrightarrow> nodes (add_edge G u v w) = nodes G"
  by (simp add: add_edge_def add_node_def Let_def)

lemma edges_add_node: "edges (add_node G n) = edges G"
  by (simp add: add_node_def)

lemma edges_add_edge: "edges (add_edge G u v w) = set_edge (u, v) w (edges G)"
  by (simp add: add_edge_def Let_def edges_add_node)

lemma set_edge_keys: "fst ` set (set_edge e w es) \<subseteq> insert e (fst ` set es)"
  by (induction e w es rule: set_edge.induct) auto

lemma set_edge_fresh:
  "\<forall>f\<in>fst ` set es. \<not> same_edge f e \<Longrightarrow> set_edge e w es = es @ [(e, w)]"
  by (induction e w es rule: set_edge.induct) auto

lemma same_edge_ends: "same_edge e f \<longleftrightarrow> ends e = ends f"
  by (cases e; cases f) (auto simp: same_edge_def ends_def doubleton_eq_iff)

lemma fold_nodes:
  "set pairs \<subseteq> set (nodes (fst Gs)) \<times> set (nodes (fst Gs)) \<Longrightarrow>
   nodes (fst (fold (loop_body np p) pairs Gs)) = nodes (fst Gs)"
proof (induction pairs arbitrary: Gs)
  case Nil
  show ?case by simp
next
  case (Cons pair pairs)
  have n: "nodes (fst (loop_body np p pair Gs)) = nodes (fst Gs)"
    using loop_body_cases [of np p pair Gs] Cons.prems
    by (cases pair) (auto simp: nodes_add_edge)
  with Cons.prems have "set pairs \<subseteq> set (nodes (fst (loop_body np p pair Gs)))
      \<times> set (nodes (fst (loop_body np p pair Gs)))" by simp
  from Cons.IH [OF this] n show ?case by simp
qed

lemma loop_body_edge_keys:
  "fst ` set (edges (fst (loop_body np p pair Gs))) \<subseteq> insert pair (fst ` set (edges (fst Gs)))"
proof -
  from loop_body_cases [of np p pair Gs] show ?thesis
  proof
    assume "fst (loop_body np p pair Gs) = fst Gs"
    then show ?thesis by auto
  next
    assume "\<exists>c. fst (loop_body np p pair Gs) = add_edge (fst Gs) (fst pair) (snd pair) c"
    then obtain c where "edges (fst (loop_body np p pair Gs)) = set_edge pair c (edges (fst Gs))"
      by (auto simp: edges_add_edge)
    then show ?thesis using set_edge_keys [of pair c "edges (fst Gs)"] by simp
  qed
qed

lemma fold_edge_keys:
  "fst ` set (edges (fst (fold (loop_body np p) pairs Gs))) \<subseteq> fst ` set (edges (fst Gs)) \<union> set pairs"
proof (induction pairs arbitrary: Gs)
  case Nil
  show ?case by simp
next
  case (Cons pair pairs)
  from Cons.IH [of "loop_body np p pair Gs"] loop_body_edge_keys [of np p pair Gs]
  show ?case by auto
qed

lemma fold_never:
  "unit_interval np \<Longrightarrow> fst (fold (loop_body np 0) pairs Gs) = fst Gs"
  by (induction pairs arbitrary: Gs) (simp_all add: loop_body_never)

lemma fold_always:
  "unit_interval np \<Longrightarrow> distinct (map ends (map fst (edges (fst Gs)) @ pairs)) \<Longrightarrow>
   map fst (edges (fst (fold (loop_body np 1) pairs Gs))) = map fst (edges (fst Gs)) @ pairs"
proof (induction pairs arbitrary: Gs)
  case Nil
  show ?case by simp
next
  case (Cons pair pairs)
  from loop_body_always [OF Cons.prems(1), of pair Gs] obtain c where
    c: "fst (loop_body np 1 pair Gs) = add_edge (fst Gs) (fst pair) (snd pair) c"
    by auto
  have "ends pair \<notin> ends ` fst ` set (edges (fst Gs))"
    using Cons.prems(2) by (auto simp: image_iff)
  then have fresh: "\<forall>f\<in>fst ` set (edges (fst Gs)). \<not> same_edge f pair"
    by (auto simp: same_edge_ends)
  have e: "edges (fst (loop_body np 1 pair Gs)) = edges (fst Gs) @ [(pair, c)]"
    using set_edge_fresh [OF fresh, of c] by (simp add: c edges_add_edge)
  have "distinct (map ends (map fst (edges (fst (loop_body np 1 pair Gs))) @ pairs))"
    using Cons.prems(2) by (simp add: e)
  from Cons.IH [OF Cons.prems(1) this] show ?case
    by (simp add: e)
qed

lemma loop_pairs_members:
  "(a, b) \<in> set (loop_pairs xs) \<Longrightarrow> a \<in> set xs \<and> b \<in> set xs"
  by (induction xs) auto

lemma loop_pairs_no_self:
  "distinct xs \<Longrightarrow> (a, b) \<in> set (loop_pairs xs) \<Longrightarrow> a \<noteq> b"
  by (induction xs) (auto dest: loop_pairs_members)

lemma loop_pairs_distinct:
  "distinct xs \<Longrightarrow> distinct (map ends (loop_pairs xs))"
proof (induction xs)
  case Nil
  show ?case by simp
next
  case (Cons x xs)
  have 1: "distinct (map ends (map (Pair x) xs))"
    using Cons.prems by (auto simp: distinct_map inj_on_def ends_def doubleton_eq_iff)
  have 2: "distinct (map ends (loop_pairs xs))"
    using Cons by simp
  have 3: "ends ` set (map (Pair x) xs) \<inter> ends ` set (loop_pairs xs) = {}"
  proof -
    have "ends (x, y) \<noteq> ends (a, b)" if "(a, b) \<in> set (loop_pairs xs)" for y a b
    proof -
      from loop_pairs_members [OF that] have "a \<in> set xs" "b \<in> set xs" by simp_all
      with Cons.prems have "x \<noteq> a" "x \<noteq> b" by auto
      then show ?thesis by (auto simp: ends_def doubleton_eq_iff)
    qed
    then show ?thesis by fastforce
  qed
  from 1 2 3 show ?case by (simp add: image_image)
qed

lemma loop_pairs_complete:
  "a \<in> set xs \<Longrightarrow> b \<in> set xs \<Longrightarrow> a \<noteq> b \<Longrightarrow>
   (a, b) \<in> set (loop_pairs xs) \<or> (b, a) \<in> set (loop_pairs xs)"
  by (induction xs) auto

lemma length_loop_pairs_aux: "2 * length (loop_pairs xs) + length xs = length xs * length xs"
  by (induction xs) (auto simp: algebra_simps)

lemma length_loop_pairs: "length (loop_pairs xs) = length xs * (length xs - 1) div 2"
proof -
  have "length xs * (length xs - 1) = length xs * length xs - length xs"
    by (simp add: algebra_simps)
  also have "\<dots> = 2 * length (loop_pairs xs)"
    using length_loop_pairs_aux [of xs] by simp
  finally show ?thesis by simp
qed

lemma network_nodes: "nodes (fst (create_test_network np genes p s)) = unique genes"
proof -
  let ?G0 = "fold (\<lambda>gene G. add_node G gene) genes empty_graph"
  have n0: "nodes ?G0 = unique genes"
    by (simp add: nodes_add_nodes empty_graph_def unique_def)
  have "set (loop_pairs genes) \<subseteq> set (nodes (fst (?G0, s))) \<times> set (nodes (fst (?G0, s)))"
    using loop_pairs_members [of _ _ genes] by (auto simp: n0 set_unique)
  from fold_nodes [OF this] show ?thesis
    by (simp add: create_test_network_fold n0)
qed

lemma edges_add_nodes: "edges (fold (\<lambda>gene G. add_node G gene) genes G) = edges G"
  by (induction genes arbitrary: G) (simp_all add: edges_add_node)

lemma network_no_edges:
  "unit_interval np \<Longrightarrow> edges (fst (create_test_network np genes 0 s)) = []"
  by (simp add: create_test_network_fold fold_never edges_add_nodes empty_graph_def)

lemma network_all_edges:
  assumes "unit_interval np" and "distinct genes"
  shows "map fst (edges (fst (create_test_network np genes 1 s))) = loop_pairs genes"
proof -
  let ?G0 = "fold (\<lambda>gene G. add_node G gene) genes empty_graph"
  have e0: "edges (fst (?G0, s)) = []"
    by (simp add: edges_add_nodes empty_graph_def)
  have "distinct (map ends (map fst (edges (fst (?G0, s))) @ loop_pairs genes))"
    using loop_pairs_distinct [OF assms(2)] by (simp only: e0 list.map append_Nil)
  from fold_always [OF assms(1) this] show ?thesis
    by (simp only: create_test_network_fold e0 list.map append_Nil)
qed

lemma unique_acc_distinct:
  "distinct xs \<Longrightarrow> set seen \<inter> set xs = {} \<Longrightarrow> unique_acc seen xs = rev seen @ xs"
  by (induction xs arbitrary: seen) auto

lemma unique_distinct: "distinct xs \<Longrightarrow> unique xs = xs"
  by (simp add: unique_def unique_acc_distinct)

text \<open>
  Claim C4. For a sequence of k distinct genes and a generator whose draws lie in the
  half-open unit interval: an interaction probability of 0 gives a graph without edges,
  and an interaction probability of 1 gives the complete graph on the k genes, with
  exactly k * (k - 1) / 2 edges, one between every two distinct genes.
\<close>

theorem interaction_probability_extremes:
  assumes "unit_interval np" and "distinct genes"
  shows "number_of_edges (fst (create_test_network np genes 0 s)) = 0 \<and>
         number_of_nodes (fst (create_test_network np genes 1 s)) = length genes \<and>
         number_of_edges (fst (create_test_network np genes 1 s))
           = length genes * (length genes - 1) div 2 \<and>
         (\<forall>a\<in>set genes. \<forall>b\<in>set genes. a \<noteq> b \<longrightarrow>
            (a, b) \<in> fst ` set (edges (fst (create_test_network np genes 1 s))) \<or>
            (b, a) \<in> fst ` set (edges (fst (create_test_network np genes 1 s))))"
proof (intro conjI ballI impI)
  show "number_of_edges (fst (create_test_network np genes 0 s)) = 0"
    using network_no_edges [OF assms(1)] by (simp add: number_of_edges_def)
  show "number_of_nodes (fst (create_test_network np genes 1 s)) = length genes"
    using assms(2) by (simp add: number_of_nodes_def network_nodes unique_distinct)
  have all: "map fst (edges (fst (create_test_network np genes 1 s))) = loop_pairs genes"
    by (rule network_all_edges [OF assms])
  have "number_of_edges (fst (create_test_network np genes 1 s))
      = length (map fst (edges (fst (create_test_network np genes 1 s))))"
    by (simp add: number_of_edges_def)
  also have "\<dots> = length genes * (length genes - 1) div 2"
    by (simp only: all length_loop_pairs)
  finally show "number_of_edges (fst (create_test_network np genes 1 s))
           = length genes * (length genes - 1) div 2" .
  fix a b assume "a \<in> set genes" "b \<in> set genes" "a \<noteq> b"
  from loop_pairs_complete [OF this]
  show "(a, b) \<in> fst ` set (edges (fst (create_test_network np genes 1 s))) \<or>
        (b, a) \<in> fst ` set (edges (fst (create_test_network np genes 1 s)))"
    using all by (metis set_map)
qed

lemma unit_interval_const: "0 \<le> u \<Longrightarrow> u < 1 \<Longrightarrow> unit_interval (np_const u)"
  by (simp add: unit_interval_def np_const_def)

theorem interaction_probability_extremes_witness:
  "number_of_edges (fst (create_test_network (np_const (1 / 2)) [''ACE2'', ''TYK2'', ''IL6''] 0 0)) = 0 \<and>
   number_of_nodes (fst (create_test_network (np_const (1 / 2)) [''ACE2'', ''TYK2'', ''IL6''] 1 0)) = 3 \<and>
   number_of_edges (fst (create_test_network (np_const (1 / 2)) [''ACE2'', ''TYK2'', ''IL6''] 1 0)) = 3"
proof -
  have u: "unit_interval (np_const (1 / 2))" by (simp add: unit_interval_const)
  have d: "distinct [''ACE2'', ''TYK2'', ''IL6'']" by simp
  from interaction_probability_extremes [OF u d, of 0] show ?thesis by simp
qed

text \<open>
  Claim C7, as the code has it. Whatever the input, the graph has one node per distinct
  gene, in order of first appearance, and the loops visit the pairs of positions
  \<open>i < j\<close>, each once; an edge is only ever added at a visited pair. When the input has
  no duplicate gene symbol, every unordered pair of distinct genes is visited exactly
  once, no gene is paired with itself, and the graph has no self-loop.
\<close>

theorem network_nodes_and_pairs:
  "nodes (fst (create_test_network np genes p s)) = unique genes \<and>
   create_test_network np genes p s =
     fold (loop_body np p) (loop_pairs genes)
       (fold (\<lambda>gene G. add_node G gene) genes empty_graph, s) \<and>
   fst ` set (edges (fst (create_test_network np genes p s))) \<subseteq> set (loop_pairs genes) \<and>
   (distinct genes \<longrightarrow>
      (\<forall>a\<in>set genes. \<forall>b\<in>set genes. a \<noteq> b \<longrightarrow>
         length (filter (\<lambda>e. ends e = {a, b}) (loop_pairs genes)) = 1) \<and>
      (\<forall>e\<in>set (loop_pairs genes). fst e \<noteq> snd e) \<and>
      self_loops (fst (create_test_network np genes p s)) = [])"
proof (intro conjI impI ballI)
  show "nodes (fst (create_test_network np genes p s)) = unique genes"
    by (rule network_nodes)
  show "create_test_network np genes p s =
     fold (loop_body np p) (loop_pairs genes)
       (fold (\<lambda>gene G. add_node G gene) genes empty_graph, s)"
    by (rule create_test_network_fold)
  show keys: "fst ` set (edges (fst (create_test_network np genes p s))) \<subseteq> set (loop_pairs genes)"
    using fold_edge_keys [of np p "loop_pairs genes" "(fold (\<lambda>gene G. add_node G gene) genes empty_graph, s)"]
    by (simp add: create_test_network_fold edges_add_nodes empty_graph_def)
  {
    fix e assume d: "distinct genes" and e: "e \<in> set (loop_pairs genes)"
    from loop_pairs_no_self [OF d, of "fst e" "snd e"] e show "fst e \<noteq> snd e" by simp
  } note no_self = this
  {
    assume d: "distinct genes"
    have "\<forall>x\<in>set (edges (fst (create_test_network np genes p s))). \<not> (case x of (e, w) \<Rightarrow> fst e = snd e)"
    proof
      fix x assume x: "x \<in> set (edges (fst (create_test_network np genes p s)))"
      then have "fst x \<in> set (loop_pairs genes)" using keys by auto
      from no_self [OF d this] show "\<not> (case x of (e, w) \<Rightarrow> fst e = snd e)"
        by (cases x) simp
    qed
    then show "self_loops (fst (create_test_network np genes p s)) = []"
      by (simp add: self_loops_def filter_empty_conv)
  }
  fix a b assume d: "distinct genes" and ab: "a \<in> set genes" "b \<in> set genes" "a \<noteq> b"
  have "length (filter (\<lambda>e. ends e = {a, b}) (loop_pairs genes))
      = length (filter (\<lambda>k. k = {a, b}) (map ends (loop_pairs genes)))"
    by (simp add: filter_map comp_def)
  also have "\<dots> = card ({k. k = {a, b}} \<inter> set (map ends (loop_pairs genes)))"
    by (rule distinct_length_filter) (rule loop_pairs_distinct [OF d])
  also have "{k. k = {a, b}} \<inter> set (map ends (loop_pairs genes)) = {{a, b}}"
    using loop_pairs_complete [OF ab] by (force simp: ends_def insert_commute)
  finally show "length (filter (\<lambda>e. ends e = {a, b}) (loop_pairs genes)) = 1" by simp
qed

text \<open>
  With a duplicate in the input the claim fails as stated: the loops pair a gene with
  its own duplicate, which adds a self-loop, and they visit the same unordered pair
  more than once.
\<close>

theorem duplicates_counterexample:
  "self_loops (fst (create_test_network (np_const (1 / 2)) [''ACE2'', ''ACE2''] 1 0))
     = [((''ACE2'', ''ACE2''), 27 / 40)] \<and>
   loop_pairs [''ACE2'', ''TYK2'', ''ACE2'']
     = [(''ACE2'', ''TYK2''), (''ACE2'', ''ACE2''), (''TYK2'', ''ACE2'')]"
  by (simp add: create_test_network_def np_const_def empty_graph_def add_node_def add_edge_def
      uniform_def Let_def self_loops_def same_edge_def)

theorem network_nodes_and_pairs_witness:
  "nodes (fst (create_test_network (np_const (1 / 2)) [''ACE2'', ''TYK2'', ''ACE2''] 1 0))
     = [''ACE2'', ''TYK2''] \<and>
   length (filter (\<lambda>e. ends e = {''IL6'', ''ACE2''}) (loop_pairs [''ACE2'', ''TYK2'', ''IL6''])) = 1 \<and>
   self_loops (fst (create_test_network (np_const (1 / 2)) [''ACE2'', ''TYK2'', ''IL6''] 1 0)) = []"
proof -
  have d: "distinct [''ACE2'', ''TYK2'', ''IL6'']" by simp
  have m1: "''IL6'' \<in> set [''ACE2'', ''TYK2'', ''IL6'']" by simp
  have m2: "''ACE2'' \<in> set [''ACE2'', ''TYK2'', ''IL6'']" by simp
  have m3: "''IL6'' \<noteq> ''ACE2''" by simp
  have u: "unique [''ACE2'', ''TYK2'', ''ACE2''] = [''ACE2'', ''TYK2'']"
    by (simp add: unique_def)
  note a = network_nodes_and_pairs [of "np_const (1 / 2)" "[''ACE2'', ''TYK2'', ''ACE2'']" 1 0]
  note b = network_nodes_and_pairs [of "np_const (1 / 2)" "[''ACE2'', ''TYK2'', ''IL6'']" 1 0]
  have 1: "nodes (fst (create_test_network (np_const (1 / 2)) [''ACE2'', ''TYK2'', ''ACE2''] 1 0))
     = [''ACE2'', ''TYK2'']"
    using a [THEN conjunct1] by (simp only: u)
  note c = b [THEN conjunct2, THEN conjunct2, THEN conjunct2, THEN mp, OF d]
  have 2: "length (filter (\<lambda>e. ends e = {''IL6'', ''ACE2''}) (loop_pairs [''ACE2'', ''TYK2'', ''IL6''])) = 1"
    using c [THEN conjunct1, THEN bspec, OF m1, THEN bspec, OF m2, THEN mp, OF m3] .
  have 3: "self_loops (fst (create_test_network (np_const (1 / 2)) [''ACE2'', ''TYK2'', ''IL6''] 1 0)) = []"
    using c [THEN conjunct2, THEN conjunct2] .
  from 1 2 3 show ?thesis by (intro conjI)
qed


subsection \<open>Dataset generator\<close>

lemma uniform_range:
  assumes "unit_interval np" and "low < high"
  shows "low \<le> fst (uniform np low high s) \<and> fst (uniform np low high s) < high"
proof -
  obtain u s' where r: "random_sample np s = (u, s')" by (cases "random_sample np s")
  with assms(1) have u: "0 \<le> u" "u < 1"
    by (auto simp: unit_interval_def dest: spec [of _ s])
  have v: "fst (uniform np low high s) = low + (high - low) * u"
    by (simp add: uniform_def r)
  have "0 \<le> (high - low) * u" using assms(2) u(1) by simp
  moreover have "(high - low) * u < (high - low) * 1"
    using assms(2) u(2) by (intro mult_strict_left_mono) simp_all
  ultimately show ?thesis unfolding v by simp
qed

lemma uniform_range_pair:
  "unit_interval np \<Longrightarrow> low < high \<Longrightarrow> uniform np low high s = (x, s') \<Longrightarrow> low \<le> x \<and> x < high"
  using uniform_range [of np low high s] by simp

lemma generate_row_ranges:
  assumes "unit_interval np"
  shows "0.00000001 \<le> p_value (fst (generate_row np py g)) \<and>
         p_value (fst (generate_row np py g)) < 0.00005 \<and>
         1.1 \<le> odds_ratio (fst (generate_row np py g)) \<and>
         odds_ratio (fst (generate_row np py g)) < 3.5"
proof -
  obtain p n1 where p: "uniform np 0.00000001 0.00005 (np_state g) = (p, n1)"
    by (cases "uniform np 0.00000001 0.00005 (np_state g)")
  obtain a n2 where a: "uniform np 0.01 0.5 n1 = (a, n2)"
    by (cases "uniform np 0.01 0.5 n1")
  obtain r n3 where r: "uniform np 1.1 3.5 n2 = (r, n3)"
    by (cases "uniform np 1.1 3.5 n2")
  have pv: "p_value (fst (generate_row np py g)) = p"
    using p a r by (auto simp: generate_row_def Let_def split: prod.splits)
  have od: "odds_ratio (fst (generate_row np py g)) = r"
    using p a r by (auto simp: generate_row_def Let_def split: prod.splits)
  from uniform_range_pair [OF assms _ p] have "0.00000001 \<le> p \<and> p < 0.00005" by simp
  moreover from uniform_range_pair [OF assms _ r] have "1.1 \<le> r \<and> r < 3.5" by simp
  ultimately show ?thesis by (simp only: pv od)
qed

lemma generate_loop_length:
  "length (fst (generate_loop np py n data g)) = length data + n"
  by (induction n arbitrary: data g) (simp_all split: prod.splits)

lemma generate_loop_rows:
  assumes "unit_interval np"
  shows "r \<in> set (fst (generate_loop np py n data g)) \<Longrightarrow>
         r \<in> set data \<or>
         (0.00000001 \<le> p_value r \<and> p_value r < 0.00005 \<and> 1.1 \<le> odds_ratio r \<and> odds_ratio r < 3.5)"
proof (induction n arbitrary: data g)
  case 0
  then show ?case by simp
next
  case (Suc n)
  obtain row g' where row: "generate_row np py g = (row, g')" by (cases "generate_row np py g")
  from Suc.prems have "r \<in> set (fst (generate_loop np py n (data @ [row]) g'))"
    by (simp add: row)
  from Suc.IH [OF this] show ?case
    using generate_row_ranges [OF assms, of py g] by (auto simp: row)
qed

lemma generated_rows:
  assumes "unit_interval np"
  shows "length (rows (fst (generate_covid_risk_variants np py n g))) = n \<and>
         (0 < n \<longrightarrow> columns (fst (generate_covid_risk_variants np py n g)) = variant_keys) \<and>
         (\<forall>r\<in>set (rows (fst (generate_covid_risk_variants np py n g))).
            0.00000001 \<le> p_value r \<and> p_value r < 0.00005 \<and>
            1.1 \<le> odds_ratio r \<and> odds_ratio r < 3.5)"
proof -
  obtain data g' where d: "generate_loop np py n [] g = (data, g')"
    by (cases "generate_loop np py n [] g")
  have df: "fst (generate_covid_risk_variants np py n g) = pd_DataFrame data"
    by (simp add: generate_covid_risk_variants_def d)
  have len: "length data = n"
    using generate_loop_length [of np py n "[]" g] by (simp add: d)
  have rng: "\<forall>r\<in>set data. 0.00000001 \<le> p_value r \<and> p_value r < 0.00005 \<and>
            1.1 \<le> odds_ratio r \<and> odds_ratio r < 3.5"
    using generate_loop_rows [OF assms, of _ py n "[]" g] by (simp add: d)
  from len have "0 < n \<longrightarrow> data \<noteq> []" by auto
  with len rng show ?thesis
    unfolding df by (simp add: pd_DataFrame_def)
qed

lemma declared_in_variant_keys: "set spec_declared_generator_columns \<subseteq> set variant_keys"
  by (simp add: spec_declared_generator_columns_def spec_declared_columns_def variant_keys_def)

lemma declared_are_tutorial_keys: "set tutorial_keys = set spec_declared_columns"
  by (auto simp: spec_declared_columns_def tutorial_keys_def)

lemma draw_n_length: "length (fst (draw_n draw n s)) = n"
proof (induction n arbitrary: s)
  case 0
  show ?case by simp
next
  case (Suc n)
  obtain x s1 where x: "draw s = (x, s1)" by (cases "draw s")
  obtain xs s2 where xs: "draw_n draw n s1 = (xs, s2)" by (cases "draw_n draw n s1")
  from Suc.IH [of s1] xs show ?case by (simp add: x)
qed

lemma draw_n_all:
  assumes "\<And>s. P (fst (draw s))"
  shows "list_all P (fst (draw_n draw n s))"
proof (induction n arbitrary: s)
  case 0
  show ?case by simp
next
  case (Suc n)
  obtain x s1 where x: "draw s = (x, s1)" by (cases "draw s")
  obtain xs s2 where xs: "draw_n draw n s1 = (xs, s2)" by (cases "draw_n draw n s1")
  from assms [of s] x have "P x" by simp
  moreover from Suc.IH [of s1] xs have "list_all P xs" by simp
  ultimately show ?case by (simp add: x xs)
qed

lemma generate_data_columns:
  "\<exists>s4 s5. column_lengths (fst (generate_data np nd n s)) = replicate 10 n \<and>
     data_p_value (fst (generate_data np nd n s)) = fst (draw_n (uniform np 0.00000001 0.00005) n s4) \<and>
     data_odds_ratio (fst (generate_data np nd n s)) = fst (draw_n (uniform np 1.1 3.5) n s5)"
proof -
  let ?d1 = "\<lambda>s. let (i, s') = np_randint nd 1000000 99999999 s in (''rs'' @ str_int i, s')"
  let ?d2 = "\<lambda>s. let (i, s') = np_randint nd 1 23 s in (''chr'' @ str_int i, s')"
  obtain c1 s1 where e1: "draw_n ?d1 n s = (c1, s1)" by (cases "draw_n ?d1 n s")
  obtain c2 s2 where e2: "draw_n ?d2 n s1 = (c2, s2)" by (cases "draw_n ?d2 n s1")
  obtain c3 s3 where e3: "draw_n (np_randint nd 1000000 200000000) n s2 = (c3, s3)"
    by (cases "draw_n (np_randint nd 1000000 200000000) n s2")
  obtain c4 s4 where e4: "draw_n (np_choice nd covid_genes_tutorial) n s3 = (c4, s4)"
    by (cases "draw_n (np_choice nd covid_genes_tutorial) n s3")
  obtain c5 s5 where e5: "draw_n (uniform np 0.00000001 0.00005) n s4 = (c5, s5)"
    by (cases "draw_n (uniform np 0.00000001 0.00005) n s4")
  obtain c6 s6 where e6: "draw_n (uniform np 1.1 3.5) n s5 = (c6, s6)"
    by (cases "draw_n (uniform np 1.1 3.5) n s5")
  obtain c7 s7 where e7: "draw_n (uniform np 0.01 0.5) n s6 = (c7, s7)"
    by (cases "draw_n (uniform np 0.01 0.5) n s6")
  let ?l8 = "[''missense_variant'', ''synonymous_variant'', ''intron_variant'',
                 ''upstream_gene_variant'', ''downstream_gene_variant'', ''3_prime_UTR_variant'']"
  let ?l9 = "[''Severe COVID-19'', ''Respiratory failure'', ''ARDS'', ''Pneumonia'',
                 ''Thrombosis'', ''Cardiovascular disease'', ''Immune deficiency'']"
  obtain c8 s8 where e8: "draw_n (np_choice nd ?l8) n s7 = (c8, s8)"
    by (cases "draw_n (np_choice nd ?l8) n s7")
  obtain c9 s9 where e9: "draw_n (np_choice nd ?l9) n s8 = (c9, s9)"
    by (cases "draw_n (np_choice nd ?l9) n s8")
  obtain c10 s10 where e10: "draw_n (np_choice nd [''European'', ''East Asian'', ''Mixed'']) n s9 = (c10, s10)"
    by (cases "draw_n (np_choice nd [''European'', ''East Asian'', ''Mixed'']) n s9")
  have d: "fst (generate_data np nd n s) =
     \<lparr> data_rs_id = c1, data_chromosome = c2, data_position = c3, data_host_gene = c4,
       data_p_value = c5, data_odds_ratio = c6, data_allele_frequency = c7,
       data_functional_consequence = c8, data_related_disease = c9,
       data_study_population = c10 \<rparr>"
    using e1 e2 e3 e4 e5 e6 e7 e8 e9 e10 by (simp add: generate_data_def Let_def)
  have l: "length c1 = n" "length c2 = n" "length c3 = n" "length c4 = n" "length c5 = n"
      "length c6 = n" "length c7 = n" "length c8 = n" "length c9 = n" "length c10 = n"
    using draw_n_length [of ?d1 n s] draw_n_length [of ?d2 n s1]
      draw_n_length [of "np_randint nd 1000000 200000000" n s2]
      draw_n_length [of "np_choice nd covid_genes_tutorial" n s3]
      draw_n_length [of "uniform np 0.00000001 0.00005" n s4]
      draw_n_length [of "uniform np 1.1 3.5" n s5]
      draw_n_length [of "uniform np 0.01 0.5" n s6]
      draw_n_length [of "np_choice nd ?l8" n s7]
      draw_n_length [of "np_choice nd ?l9" n s8]
      draw_n_length [of "np_choice nd [''European'', ''East Asian'', ''Mixed'']" n s9]
    unfolding e1 e2 e3 e4 e5 e6 e7 e8 e9 e10 by simp_all
  have "column_lengths (fst (generate_data np nd n s)) = replicate 10 n"
    unfolding d by (simp add: column_lengths_def l numeral_eq_Suc)
  moreover have "data_p_value (fst (generate_data np nd n s))
      = fst (draw_n (uniform np 0.00000001 0.00005) n s4)"
    unfolding d e5 by simp
  moreover have "data_odds_ratio (fst (generate_data np nd n s))
      = fst (draw_n (uniform np 1.1 3.5) n s5)"
    unfolding d e6 by simp
  ultimately show ?thesis by blast
qed

lemma tutorial_table:
  assumes "unit_interval np"
  shows "\<exists>df s'. tutorial_df np nd n s = Inr (df, s') \<and>
           frame_length df = n \<and> frame_columns df = tutorial_keys \<and>
           length (data_p_value (frame_data df)) = n \<and>
           length (data_odds_ratio (frame_data df)) = n \<and>
           (\<forall>p\<in>set (data_p_value (frame_data df)). 0.00000001 \<le> p \<and> p < 0.00005) \<and>
           (\<forall>r\<in>set (data_odds_ratio (frame_data df)). 1.1 \<le> r \<and> r < 3.5)"
proof -
  obtain d s' where g: "generate_data np nd n s = (d, s')" by (cases "generate_data np nd n s")
  from generate_data_columns [of np nd n s] g obtain s4 s5 where
    cl: "column_lengths d = replicate 10 n" and
    pv: "data_p_value d = fst (draw_n (uniform np 0.00000001 0.00005) n s4)" and
    od: "data_odds_ratio d = fst (draw_n (uniform np 1.1 3.5) n s5)"
    by auto
  from cl have len: "length (data_rs_id d) = n" "length (data_p_value d) = n"
      "length (data_odds_ratio d) = n"
    by (simp_all add: column_lengths_def numeral_eq_Suc)
  from cl len(1) have ok: "list_all (\<lambda>l. l = length (data_rs_id d)) (column_lengths d)"
    by (simp add: list_all_iff)
  have df: "tutorial_df np nd n s =
      Inr (\<lparr> frame_columns = tutorial_keys, frame_length = n, frame_data = d \<rparr>, s')"
    using ok len(1) by (simp add: tutorial_df_def g pd_DataFrame_dict_def)
  have "list_all (\<lambda>p. 0.00000001 \<le> p \<and> p < 0.00005) (data_p_value d)"
    unfolding pv using uniform_range [OF assms, of "0.00000001" "0.00005"]
    by (intro draw_n_all) simp
  then have rp: "\<forall>p\<in>set (data_p_value d). 0.00000001 \<le> p \<and> p < 0.00005"
    by (simp add: list_all_iff)
  have "list_all (\<lambda>r. 1.1 \<le> r \<and> r < 3.5) (data_odds_ratio d)"
    unfolding od using uniform_range [OF assms, of "1.1" "3.5"]
    by (intro draw_n_all) simp
  then have ro: "\<forall>r\<in>set (data_odds_ratio d). 1.1 \<le> r \<and> r < 3.5"
    by (simp add: list_all_iff)
  from df len rp ro show ?thesis by simp
qed

text \<open>
  Claim C6, for both generators and with the intervals the code has. Whenever numpy's
  draws lie in the half-open unit interval, for every target count \<open>n\<close>: the table of
  \<open>generate_covid_risk_variants\<close> has exactly \<open>n\<close> rows and, when \<open>n\<close> is positive, every
  column the specification declares for the generator; the inline table of
  \<open>test_tutorial.py\<close> is built without an error, has exactly \<open>n\<close> rows and exactly the
  ten columns the specification declares for a variant record. In both tables every
  \<open>p_value\<close> lies in the half-open interval from 1e-8 (included) to 5e-5 (excluded) and
  every \<open>odds_ratio\<close> in the half-open interval from 1.1 (included) to 3.5 (excluded).
\<close>

theorem generated_tables_shape:
  assumes "unit_interval np"
  shows "(length (rows (fst (generate_covid_risk_variants np py n g))) = n \<and>
          (0 < n \<longrightarrow> set spec_declared_generator_columns
                      \<subseteq> set (columns (fst (generate_covid_risk_variants np py n g)))) \<and>
          (\<forall>r\<in>set (rows (fst (generate_covid_risk_variants np py n g))).
             0.00000001 \<le> p_value r \<and> p_value r < 0.00005 \<and>
             1.1 \<le> odds_ratio r \<and> odds_ratio r < 3.5)) \<and>
         (\<exists>df s'. tutorial_df np nd n s = Inr (df, s') \<and>
             frame_length df = n \<and>
             set (frame_columns df) = set spec_declared_columns \<and>
             length (data_p_value (frame_data df)) = n \<and>
             length (data_odds_ratio (frame_data df)) = n \<and>
             (\<forall>p\<in>set (data_p_value (frame_data df)). 0.00000001 \<le> p \<and> p < 0.00005) \<and>
             (\<forall>r\<in>set (data_odds_ratio (frame_data df)). 1.1 \<le> r \<and> r < 3.5))"
proof
  from generated_rows [OF assms, of py n g] declared_in_variant_keys
  show "length (rows (fst (generate_covid_risk_variants np py n g))) = n \<and>
          (0 < n \<longrightarrow> set spec_declared_generator_columns
                      \<subseteq> set (columns (fst (generate_covid_risk_variants np py n g)))) \<and>
          (\<forall>r\<in>set (rows (fst (generate_covid_risk_variants np py n g))).
             0.00000001 \<le> p_value r \<and> p_value r < 0.00005 \<and>
             1.1 \<le> odds_ratio r \<and> odds_ratio r < 3.5)"
    by simp
next
  from tutorial_table [OF assms, of nd n s] obtain df s' where
    t: "tutorial_df np nd n s = Inr (df, s')" "frame_length df = n"
       "frame_columns df = tutorial_keys"
       "length (data_p_value (frame_data df)) = n"
       "length (data_odds_ratio (frame_data df)) = n"
       "\<forall>p\<in>set (data_p_value (frame_data df)). 0.00000001 \<le> p \<and> p < 0.00005"
       "\<forall>r\<in>set (data_odds_ratio (frame_data df)). 1.1 \<le> r \<and> r < 3.5"
    by blast
  from t(3) have c: "set (frame_columns df) = set spec_declared_columns"
    by (simp add: declared_are_tutorial_keys)
  from t(1,2) c t(4-7)
  show "\<exists>df s'. tutorial_df np nd n s = Inr (df, s') \<and>
             frame_length df = n \<and>
             set (frame_columns df) = set spec_declared_columns \<and>
             length (data_p_value (frame_data df)) = n \<and>
             length (data_odds_ratio (frame_data df)) = n \<and>
             (\<forall>p\<in>set (data_p_value (frame_data df)). 0.00000001 \<le> p \<and> p < 0.00005) \<and>
             (\<forall>r\<in>set (data_odds_ratio (frame_data df)). 1.1 \<le> r \<and> r < 3.5)"
    by (intro exI conjI)
qed

text \<open>
  The intervals are not open, as the claim has them: \<open>np.random.uniform\<close> includes its
  lower limit. A generator that draws 0, which the half-open unit interval contains,
  gives the p-value 1e-8 and the odds ratio 1.1 in both tables, neither strictly inside
  its interval.
\<close>

theorem open_interval_counterexample:
  "unit_interval (np_const 0) \<and>
   map p_value (rows (fst (generate_covid_risk_variants (np_const 0) py_first 1
       \<lparr>np_state = 0, py_state = 0, environ = ()\<rparr>))) = [0.00000001] \<and>
   map odds_ratio (rows (fst (generate_covid_risk_variants (np_const 0) py_first 1
       \<lparr>np_state = 0, py_state = 0, environ = ()\<rparr>))) = [1.1] \<and>
   (\<exists>df s'. tutorial_df (np_const 0) nd_first 1 0 = Inr (df, s') \<and>
      data_p_value (frame_data df) = [0.00000001] \<and>
      data_odds_ratio (frame_data df) = [1.1]) \<and>
   \<not> (0.00000001 < (0.00000001::real)) \<and> \<not> (1.1 < (1.1::real))"
proof (intro conjI)
  show "unit_interval (np_const 0)" by (simp add: unit_interval_def np_const_def)
  show "map p_value (rows (fst (generate_covid_risk_variants (np_const 0) py_first 1
       \<lparr>np_state = 0, py_state = 0, environ = ()\<rparr>))) = [0.00000001]"
    by (simp add: generate_covid_risk_variants_def generate_row_def uniform_def np_const_def
        py_first_def pd_DataFrame_def Let_def)
  show "map odds_ratio (rows (fst (generate_covid_risk_variants (np_const 0) py_first 1
       \<lparr>np_state = 0, py_state = 0, environ = ()\<rparr>))) = [1.1]"
    by (simp add: generate_covid_risk_variants_def generate_row_def uniform_def np_const_def
        py_first_def pd_DataFrame_def Let_def)
  show "\<exists>df s'. tutorial_df (np_const 0) nd_first 1 0 = Inr (df, s') \<and>
      data_p_value (frame_data df) = [0.00000001] \<and>
      data_odds_ratio (frame_data df) = [1.1]"
    by (simp add: tutorial_df_def generate_data_def pd_DataFrame_dict_def column_lengths_def
        uniform_def np_const_def nd_first_def Let_def)
  show "\<not> (0.00000001 < (0.00000001::real))" by simp
  show "\<not> (1.1 < (1.1::real))" by simp
qed

theorem generated_tables_shape_witness:
  "length (rows (fst (generate_covid_risk_variants np_cycle py_first 2
       \<lparr>np_state = 0, py_state = 0, environ = ()\<rparr>))) = 2 \<and>
   set spec_declared_generator_columns
     \<subseteq> set (columns (fst (generate_covid_risk_variants np_cycle py_first 2
           \<lparr>np_state = 0, py_state = 0, environ = ()\<rparr>))) \<and>
   list_all (\<lambda>r. 0.00000001 \<le> p_value r \<and> p_value r < 0.00005 \<and>
                 1.1 \<le> odds_ratio r \<and> odds_ratio r < 3.5)
     (rows (fst (generate_covid_risk_variants np_cycle py_first 2
       \<lparr>np_state = 0, py_state = 0, environ = ()\<rparr>))) \<and>
   (\<exists>df s'. tutorial_df np_cycle nd_first 2 0 = Inr (df, s') \<and>
      frame_length df = 2 \<and>
      set (frame_columns df) = set spec_declared_columns \<and>
      length (data_p_value (frame_data df)) = 2 \<and>
      length (data_odds_ratio (frame_data df)) = 2 \<and>
      list_all (\<lambda>p. 0.00000001 \<le> p \<and> p < 0.00005) (data_p_value (frame_data df)) \<and>
      list_all (\<lambda>r. 1.1 \<le> r \<and> r < 3.5) (data_odds_ratio (frame_data df)))"
proof -
  have u: "unit_interval np_cycle"
    by (simp add: unit_interval_def np_cycle_def)
  from generated_tables_shape [OF u, of py_first 2 "\<lparr>np_state = 0, py_state = 0, environ = ()\<rparr>"
      nd_first 0]
  show ?thesis by (simp add: list_all_iff)
qed






end
